theory Spec2Isabelle
  imports Complex_Main
begin

section \<open>Regular expressions of \<^verbatim>\<open>detectCarrier\<close>\<close>

text \<open>
  The repository holds two versions of \<^verbatim>\<open>server.js\<close>: \<^verbatim>\<open>src/server.js\<close> and the
  enhanced one in \<^verbatim>\<open>src/unnamed/part_000\<close>. Where a function differs between the
  two, the definition taken from the second carries the suffix \<open>_enh\<close>; a function
  that is the same in both, or that only one of them has, keeps its name.

  A JavaScript string is modelled as a \<^typ>\<open>string\<close>, one \<^typ>\<open>char\<close> for each code
  unit below 256. The regular expressions of \<^verbatim>\<open>detectCarrier\<close> are built from
  literals, character classes given by ranges, counted repetition of a class,
  concatenation and alternation; all of them are anchored with \<^verbatim>\<open>^\<close> and \<^verbatim>\<open>$\<close>
  around the whole expression, and without the \<^verbatim>\<open>m\<close> flag these match only at the
  two ends of the input, so \<^verbatim>\<open>test\<close> decides whether the whole string matches.
\<close>

type_synonym cls = "(char \<times> char) list"

datatype regex =
    Lit string
  | Rep cls nat nat
  | Cat regex regex
  | Or regex regex

text \<open>
  \<^verbatim>\<open>Canonicalize\<close> of ECMAScript for a pattern with the \<^verbatim>\<open>i\<close> flag and without the
  \<^verbatim>\<open>u\<close> flag: the upper-case form of the code unit when that is one code unit,
  except that a code unit of 128 or more is never mapped below 128. The result is
  a code unit number, since two code units below 256 have upper-case forms above
  255 (U+00B5 maps to U+039C, U+00FF to U+0178); U+00DF has no one-unit upper
  case and U+00F7 is not a letter.
\<close>

definition canonicalize :: "char \<Rightarrow> nat" where
  "canonicalize c =
     (let n = of_char c in
      if 97 \<le> n \<and> n \<le> 122 then n - 32
      else if 224 \<le> n \<and> n \<le> 254 \<and> n \<noteq> 247 then n - 32
      else if n = 255 then 376
      else if n = 181 then 924
      else n)"

definition char_match :: "bool \<Rightarrow> char \<Rightarrow> char \<Rightarrow> bool" where
  "char_match ic a c = (if ic then canonicalize a = canonicalize c else a = c)"

text \<open>A class matches a character when one of its members does.\<close>

definition in_class :: "bool \<Rightarrow> cls \<Rightarrow> char \<Rightarrow> bool" where
  "in_class ic rs c =
     list_ex (\<lambda>(lo, hi). list_ex (\<lambda>m. char_match ic (char_of m) c)
                [of_char lo ..< Suc (of_char hi)]) rs"

fun matches :: "bool \<Rightarrow> regex \<Rightarrow> string \<Rightarrow> bool" where
  "matches ic (Lit w) s = list_all2 (char_match ic) w s"
| "matches ic (Rep rs lo hi) s =
     (lo \<le> length s \<and> length s \<le> hi \<and> list_all (in_class ic rs) s)"
| "matches ic (Cat a b) s =
     list_ex (\<lambda>k. matches ic a (take k s) \<and> matches ic b (drop k s)) [0 ..< Suc (length s)]"
| "matches ic (Or a b) s = (matches ic a s \<or> matches ic b s)"

text \<open>\<^verbatim>\<open>/^r$/.test(s)\<close> and \<^verbatim>\<open>/^r$/i.test(s)\<close>.\<close>

definition test :: "regex \<Rightarrow> string \<Rightarrow> bool" where
  "test r s = matches False r s"

definition test_i :: "regex \<Rightarrow> string \<Rightarrow> bool" where
  "test_i r s = matches True r s"

text \<open>The character classes of the source.\<close>

definition cls_alnum :: cls where
  "cls_alnum = [(CHR ''A'', CHR ''Z''), (CHR ''a'', CHR ''z''), (CHR ''0'', CHR ''9'')]"

definition cls_digit :: cls where
  "cls_digit = [(CHR ''0'', CHR ''9'')]"

definition cls_alpha :: cls where
  "cls_alpha = [(CHR ''A'', CHR ''Z''), (CHR ''a'', CHR ''z'')]"

definition cls_2_5 :: cls where
  "cls_2_5 = [(CHR ''2'', CHR ''5'')]"

definition cls_digit_upper :: cls where
  "cls_digit_upper = [(CHR ''0'', CHR ''9''), (CHR ''A'', CHR ''Z'')]"

text \<open>\<^verbatim>\<open>(1Z|1z)[A-Za-z0-9]{16}\<close>\<close>

definition re_ups :: regex where
  "re_ups = Cat (Or (Lit ''1Z'') (Lit ''1z'')) (Rep cls_alnum 16 16)"

text \<open>\<^verbatim>\<open>([0-9]{12}|[0-9]{15})\<close>\<close>

definition re_fedex :: regex where
  "re_fedex = Or (Rep cls_digit 12 12) (Rep cls_digit 15 15)"

text \<open>\<^verbatim>\<open>[A-Za-z]{2}[0-9]{9}[A-Za-z]{2}\<close>\<close>

definition re_dhl :: regex where
  "re_dhl = Cat (Rep cls_alpha 2 2) (Cat (Rep cls_digit 9 9) (Rep cls_alpha 2 2))"

text \<open>\<^verbatim>\<open>9[2-5][0-9]{20,22}\<close>\<close>

definition re_usps :: regex where
  "re_usps = Cat (Lit ''9'') (Cat (Rep cls_2_5 1 1) (Rep cls_digit 20 22))"

text \<open>\<^verbatim>\<open>[0-9A-Z]{3}-[0-9A-Z]{7}-[0-9A-Z]{7}\<close>\<close>

definition re_amazon :: regex where
  "re_amazon =
     Cat (Rep cls_digit_upper 3 3)
       (Cat (Lit ''-'') (Cat (Rep cls_digit_upper 7 7)
         (Cat (Lit ''-'') (Rep cls_digit_upper 7 7))))"

section \<open>\<^verbatim>\<open>detectCarrier\<close>\<close>

text \<open>
  \<^verbatim>\<open>src/server.js\<close>, lines 123 to 130: no pattern has a flag. The result
  \<^verbatim>\<open>null\<close> is \<^const>\<open>None\<close>.
\<close>

definition detectCarrier :: "string \<Rightarrow> string option" where
  "detectCarrier trackingNumber =
     (if test re_ups trackingNumber then Some ''ups''
      else if test re_fedex trackingNumber then Some ''fedex''
      else if test re_dhl trackingNumber then Some ''dhl''
      else if test re_usps trackingNumber then Some ''usps''
      else if test re_amazon trackingNumber then Some ''amazon''
      else None)"

text \<open>
  \<^verbatim>\<open>src/unnamed/part_000\<close>, lines 125 to 132: the patterns of UPS, DHL and Amazon
  have the \<^verbatim>\<open>i\<close> flag, those of FedEx and USPS have none.
\<close>

definition detectCarrier_enh :: "string \<Rightarrow> string option" where
  "detectCarrier_enh trackingNumber =
     (if test_i re_ups trackingNumber then Some ''ups''
      else if test re_fedex trackingNumber then Some ''fedex''
      else if test_i re_dhl trackingNumber then Some ''dhl''
      else if test re_usps trackingNumber then Some ''usps''
      else if test_i re_amazon trackingNumber then Some ''amazon''
      else None)"

definition is_digit :: "char \<Rightarrow> bool" where
  "is_digit c = (48 \<le> (of_char c :: nat) \<and> (of_char c :: nat) \<le> 57)"

definition is_upper :: "char \<Rightarrow> bool" where
  "is_upper c = (65 \<le> (of_char c :: nat) \<and> (of_char c :: nat) \<le> 90)"

definition is_lower :: "char \<Rightarrow> bool" where
  "is_lower c = (97 \<le> (of_char c :: nat) \<and> (of_char c :: nat) \<le> 122)"

definition is_alnum :: "char \<Rightarrow> bool" where
  "is_alnum c = (is_digit c \<or> is_upper c \<or> is_lower c)"

section \<open>The detector of the specification\<close>

text \<open>
  The five rules as section 4.1 of the specification words them, on the characters
  of the identifier and without the patterns of the code. UPS: the identifier
  starts with 1Z, in either case, followed by exactly 16 alphanumeric characters.
  FedEx: exactly 12 or exactly 15 decimal digits. DHL: 2 letters, 9 digits,
  2 letters, in either case. USPS: the digit 9, a second digit from 2 to 5, and
  20 to 22 more digits. Amazon: three, seven and seven alphanumeric characters of
  either case, with hyphens after the third and the eleventh character.
\<close>

definition is_letter :: "char \<Rightarrow> bool" where
  "is_letter c = (is_upper c \<or> is_lower c)"

fun spec_ups :: "string \<Rightarrow> bool" where
  "spec_ups (a # b # rest) =
     (a = CHR ''1'' \<and> (b = CHR ''Z'' \<or> b = CHR ''z'') \<and>
      length rest = 16 \<and> list_all is_alnum rest)"
| "spec_ups _ = False"

definition spec_fedex :: "string \<Rightarrow> bool" where
  "spec_fedex s = ((length s = 12 \<or> length s = 15) \<and> list_all is_digit s)"

definition spec_dhl :: "string \<Rightarrow> bool" where
  "spec_dhl s =
     (length s = 13 \<and> list_all is_letter (take 2 s) \<and>
      list_all is_digit (take 9 (drop 2 s)) \<and> list_all is_letter (drop 11 s))"

fun spec_usps :: "string \<Rightarrow> bool" where
  "spec_usps (a # b # rest) =
     (a = CHR ''9'' \<and> 50 \<le> (of_char b :: nat) \<and> (of_char b :: nat) \<le> 53 \<and>
      20 \<le> length rest \<and> length rest \<le> 22 \<and> list_all is_digit rest)"
| "spec_usps _ = False"

definition spec_amazon :: "string \<Rightarrow> bool" where
  "spec_amazon s =
     (length s = 19 \<and> list_all is_alnum (take 3 s) \<and> take 1 (drop 3 s) = ''-'' \<and>
      list_all is_alnum (take 7 (drop 4 s)) \<and> take 1 (drop 11 s) = ''-'' \<and>
      list_all is_alnum (drop 12 s))"

text \<open>
  The detector as the specification words it: the rules in their order, the tag
  of the first rule that the whole identifier matches, and no tag when it matches
  none.
\<close>

type_synonym rule = "(string \<Rightarrow> bool) \<times> string"

fun first_match :: "rule list \<Rightarrow> string \<Rightarrow> string option" where
  "first_match [] s = None"
| "first_match ((p, tag) # rs) s = (if p s then Some tag else first_match rs s)"

definition spec_rules :: "rule list" where
  "spec_rules = [(spec_ups, ''ups''), (spec_fedex, ''fedex''), (spec_dhl, ''dhl''),
                 (spec_usps, ''usps''), (spec_amazon, ''amazon'')]"

text \<open>
  \<^verbatim>\<open>String.prototype.toLowerCase\<close> on code units below 256: the letters A to Z
  and the upper-case letters of Latin-1 move up by 32, U+00D7 is not a letter.
\<close>

definition toLowerCase :: "string \<Rightarrow> string" where
  "toLowerCase s = map (\<lambda>c. let n = of_char c :: nat in
       if 65 \<le> n \<and> n \<le> 90 then char_of (n + 32)
       else if 192 \<le> n \<and> n \<le> 222 \<and> n \<noteq> 215 then char_of (n + 32)
       else c) s"

text \<open>The least and the greatest length of a string that a pattern can match.\<close>

fun min_len :: "regex \<Rightarrow> nat" where
  "min_len (Lit w) = length w"
| "min_len (Rep rs lo hi) = lo"
| "min_len (Cat a b) = min_len a + min_len b"
| "min_len (Or a b) = min (min_len a) (min_len b)"

fun max_len :: "regex \<Rightarrow> nat" where
  "max_len (Lit w) = length w"
| "max_len (Rep rs lo hi) = hi"
| "max_len (Cat a b) = max_len a + max_len b"
| "max_len (Or a b) = max (max_len a) (max_len b)"

text \<open>The canonical form of a code unit below 256, as a function of its number.\<close>

definition cn :: "nat \<Rightarrow> nat" where
  "cn n = (if 97 \<le> n \<and> n \<le> 122 then n - 32
      else if 224 \<le> n \<and> n \<le> 254 \<and> n \<noteq> 247 then n - 32
      else if n = 255 then 376
      else if n = 181 then 924
      else n)"

section \<open>Tracking results\<close>

text \<open>
  An instant is a number of milliseconds since the epoch, the time value of a
  JavaScript \<^verbatim>\<open>Date\<close>. The \<^verbatim>\<open>timestamp\<close> of an event is either the ISO-8601
  text of an instant (\<^verbatim>\<open>toISOString\<close>, which renders the instant itself, in UTC) or
  text scraped from a page.
\<close>

type_synonym instant = int

datatype stamp = Iso instant | Scraped string

text \<open>
  The events of the simulated strategy have no \<^verbatim>\<open>description\<close> field, those of
  the Amazon strategy have one. The field \<^verbatim>\<open>geo\<close> is a pair of latitude and
  longitude, or \<^verbatim>\<open>null\<close>.
\<close>

record ActivityEvent =
  status :: string
  description :: "string option"
  location :: string
  timestamp :: stamp
  geo :: "(rat \<times> rat) option"

text \<open>
  \<^verbatim>\<open>estimatedDelivery\<close> is the text of \<^verbatim>\<open>toLocaleDateString\<close>, which names a
  calendar day of the local time zone, or text taken from a page. The day is kept
  as its number since the epoch.
\<close>

datatype date_text = LocaleDate int | PageText string

record TrackingResult =
  carrier :: string
  trackingNumber :: string
  result_status :: string
  estimatedDelivery :: date_text
  activity :: "ActivityEvent list"

definition ms_per_day :: int where
  "ms_per_day = 24 * 3600 * 1000"

text \<open>
  The local time zone is a fixed offset \<open>zone\<close> in milliseconds (local time is UTC
  plus \<open>zone\<close>), a zone without clock changes. There \<^verbatim>\<open>now.setDate(now.getDate() + 1)\<close>
  moves the time value forward by one day.
\<close>

definition local_day :: "int \<Rightarrow> instant \<Rightarrow> int" where
  "local_day zone t = (t + zone) div ms_per_day"

definition toLocaleDateString :: "int \<Rightarrow> instant \<Rightarrow> date_text" where
  "toLocaleDateString zone t = LocaleDate (local_day zone t)"

definition setDate_next :: "instant \<Rightarrow> instant" where
  "setDate_next t = t + ms_per_day"

text \<open>
  \<^verbatim>\<open>String.prototype.toUpperCase\<close> on code units below 256 whose upper-case form is
  one code unit below 256. It is applied to carrier tags only.
\<close>

definition toUpperCase :: "string \<Rightarrow> string" where
  "toUpperCase s = map (\<lambda>c. let n = of_char c :: nat in
       if 97 \<le> n \<and> n \<le> 122 then char_of (n - 32)
       else if 224 \<le> n \<and> n \<le> 254 \<and> n \<noteq> 247 then char_of (n - 32)
       else c) s"

section \<open>The simulated strategy: \<^verbatim>\<open>getGenericTracking\<close>\<close>

definition locations :: "string list" where
  "locations = [''Los Angeles, CA'', ''Denver, CO'', ''Chicago, IL'', ''New York, NY'']"

definition geoCoords :: "(string \<times> rat \<times> rat) list" where
  "geoCoords =
     [(''Los Angeles, CA'', (34.05, -118.24)),
      (''Denver, CO'', (39.73, -104.99)),
      (''Chicago, IL'', (41.87, -87.62)),
      (''New York, NY'', (40.71, -74.00))]"

text \<open>
  The code is the same in the two versions (\<^verbatim>\<open>src/server.js\<close> lines 132 to 165,
  \<^verbatim>\<open>src/unnamed/part_000\<close> lines 134 to 168). What it reads from outside is
  passed in: \<open>rnd\<close> is the value of \<^verbatim>\<open>Math.random()\<close>, \<open>now\<close> the time value of
  the first \<^verbatim>\<open>new Date()\<close>, \<open>today\<close> that of the \<^verbatim>\<open>new Date()\<close> in the
  \<^verbatim>\<open>estimatedDelivery\<close> of the delivered branch. The events are built oldest first,
  the fourth is pushed at the end, and the result holds the list reversed. The
  timestamps are computed before \<^verbatim>\<open>now.setDate\<close> changes \<^verbatim>\<open>now\<close>.
\<close>

definition getGenericTracking ::
  "int \<Rightarrow> rat \<Rightarrow> instant \<Rightarrow> instant \<Rightarrow> string \<Rightarrow> string \<Rightarrow> TrackingResult" where
  "getGenericTracking zone rnd now today carrier' trackingNumber' =
     (let delivered = (rnd > 0.5);
          finalLocation = locations ! (length locations - 1);
          activity0 =
            [\<lparr>status = ''Package received by carrier'', description = None,
              location = locations ! 0, timestamp = Iso (now - 3 * 24 * 3600 * 1000),
              geo = map_of geoCoords (locations ! 0)\<rparr>,
             \<lparr>status = ''Departed from facility'', description = None,
              location = locations ! 1, timestamp = Iso (now - 2 * 24 * 3600 * 1000),
              geo = map_of geoCoords (locations ! 1)\<rparr>,
             \<lparr>status = ''Arrived at destination hub'', description = None,
              location = locations ! 2, timestamp = Iso (now - 1 * 24 * 3600 * 1000),
              geo = map_of geoCoords (locations ! 2)\<rparr>];
          activity1 =
            (if delivered
             then activity0 @ [\<lparr>status = ''Delivered'', description = None,
                    location = finalLocation, timestamp = Iso now,
                    geo = map_of geoCoords finalLocation\<rparr>]
             else activity0 @ [\<lparr>status = ''Out for delivery'', description = None,
                    location = finalLocation, timestamp = Iso now,
                    geo = map_of geoCoords finalLocation\<rparr>])
      in \<lparr>carrier = toUpperCase carrier',
          trackingNumber = trackingNumber',
          result_status = (if delivered then ''Delivered'' else ''In Transit''),
          estimatedDelivery =
            (if delivered then toLocaleDateString zone today
             else toLocaleDateString zone (setDate_next now)),
          activity = rev activity1\<rparr>)"

text \<open>
  Chronological order of a sequence of events, by the instants of their
  timestamps; a scraped timestamp has no instant and is in no order.
\<close>

definition earlier_eq :: "ActivityEvent \<Rightarrow> ActivityEvent \<Rightarrow> bool" where
  "earlier_eq a b =
     (case (timestamp a, timestamp b) of (Iso x, Iso y) \<Rightarrow> x \<le> y | _ \<Rightarrow> False)"

definition chronological_ascending :: "ActivityEvent list \<Rightarrow> bool" where
  "chronological_ascending evs = sorted_wrt earlier_eq evs"

definition chronological_descending :: "ActivityEvent list \<Rightarrow> bool" where
  "chronological_descending evs = sorted_wrt (\<lambda>a b. earlier_eq b a) evs"

section \<open>The environment of a request\<close>

text \<open>
  An HTTP response as the code reads it: the body \<^verbatim>\<open>response.data\<close>, and the
  answers of the document parsed from it to the queries of the code. \<open>signIn\<close> is
  the element \<^verbatim>\<open>form[name="signIn"]\<close>, given by the names and values of its hidden
  inputs in document order; \<open>statusElement\<close>, \<open>estimateElement\<close> and
  \<open>carrierInfoElement\<close> are the \<^verbatim>\<open>textContent\<close> of the first element matching the
  selector list of that name in \<^verbatim>\<open>getAmazonTrackingWithLogin\<close>; \<open>eventNodes\<close> maps
  a selector to the result of \<^verbatim>\<open>querySelectorAll\<close>. An event card is given by the
  \<^verbatim>\<open>textContent\<close> of its three queried children, where present.
\<close>

type_synonym form = "(string \<times> string) list"

record event_card =
  secondaryMessage :: "string option"
  primaryMessage :: "string option"
  tertiaryMessage :: "string option"

record page =
  response_data :: string
  signIn :: "form option"
  statusElement :: "string option"
  estimateElement :: "string option"
  carrierInfoElement :: "string option"
  eventNodes :: "string \<Rightarrow> event_card list"

datatype request = GET string | POST string "(string \<times> string) list"

text \<open>
  What one request to \<^verbatim>\<open>/api/track\<close> reads from outside the program. The clock
  readings are \<open>t_check\<close> (\<^verbatim>\<open>Date.now()\<close> of the cache test), \<open>t_now\<close> and \<open>t_today\<close>
  (the two \<^verbatim>\<open>new Date()\<close> of \<^verbatim>\<open>getGenericTracking\<close>), \<open>t_event\<close> (the \<^verbatim>\<open>new Date()\<close>
  of the event synthesized by the Amazon strategy) and \<open>t_store\<close> (\<^verbatim>\<open>Date.now()\<close> when
  the result is stored). \<open>http k\<close> is the outcome of the request sent after \<open>k\<close>
  earlier ones: a response, or the message of the error that the client throws.
\<close>

record env =
  t_check :: instant
  rnd_value :: rat
  t_now :: instant
  t_today :: instant
  t_event :: instant
  t_store :: instant
  zone_offset :: int
  AMZ_USER :: "string option"
  AMZ_PASS :: "string option"
  http :: "nat \<Rightarrow> string + page"

record cache_entry =
  data :: TrackingResult
  expiry :: instant

text \<open>
  The state of the process: the cache, the session flag of the enhanced version
  (which \<^verbatim>\<open>src/server.js\<close> does not have and its functions never touch), and two
  records of what the program did: the requests sent to Amazon, in order, and the
  number of times \<^verbatim>\<open>/api/track\<close> dispatched to a carrier strategy.
\<close>

record server =
  trackingCache :: "string \<rightharpoonup> cache_entry"
  amazonSessionActive :: bool
  requests :: "request list"
  strategy_calls :: nat

definition CACHE_TTL :: int where
  "CACHE_TTL = 10 * 60 * 1000"

text \<open>An environment variable is falsy when it is unset or empty.\<close>

definition falsy :: "string option \<Rightarrow> bool" where
  "falsy v = (case v of None \<Rightarrow> True | Some x \<Rightarrow> x = [])"

section \<open>The Amazon strategy of \<^verbatim>\<open>src/server.js\<close>\<close>

definition getAmazonTracking :: "env \<Rightarrow> string \<Rightarrow> string + TrackingResult" where
  "getAmazonTracking e orderId =
     (if falsy (AMZ_USER e) then Inl ''Server is not configured for Amazon tracking.''
      else Inr (getGenericTracking (zone_offset e) (rnd_value e) (t_now e) (t_today e)
                  ''amazon'' orderId))"

section \<open>The Amazon strategy of \<^verbatim>\<open>src/unnamed/part_000\<close>\<close>

definition client_get :: "env \<Rightarrow> server \<Rightarrow> string \<Rightarrow> (string + page) \<times> server" where
  "client_get e s url = (http e (length (requests s)), s\<lparr>requests := requests s @ [GET url]\<rparr>)"

definition client_post ::
  "env \<Rightarrow> server \<Rightarrow> string \<Rightarrow> (string \<times> string) list \<Rightarrow> (string + page) \<times> server" where
  "client_post e s url formData =
     (http e (length (requests s)), s\<lparr>requests := requests s @ [POST url formData]\<rparr>)"

text \<open>\<^verbatim>\<open>String.prototype.includes\<close>.\<close>

fun str_includes :: "string \<Rightarrow> string \<Rightarrow> bool" where
  "str_includes [] x = (x = [])"
| "str_includes (c # cs) x = (take (length x) (c # cs) = x \<or> str_includes cs x)"

text \<open>
  Assignment to a property of an object: the value of an existing key is replaced
  in place, a new key is added at the end.
\<close>

fun assign :: "string \<Rightarrow> string \<Rightarrow> (string \<times> string) list \<Rightarrow> (string \<times> string) list" where
  "assign k v [] = [(k, v)]"
| "assign k v ((k', v') # kvs) = (if k' = k then (k, v) # kvs else (k', v') # assign k v kvs)"

definition extractHiddenInputs :: "form \<Rightarrow> (string \<times> string) list" where
  "extractHiddenInputs currentForm =
     foldl (\<lambda>fd (name, val). if name \<noteq> [] then assign name val fd else fd) [] currentForm"

definition signin_url :: string where
  "signin_url = ''https://www.amazon.com/ap/signin''"

definition order_history_url :: string where
  "order_history_url = ''https://www.amazon.com/gp/css/order-history''"

definition mfa_message :: string where
  "mfa_message = ''Amazon MFA/OTP required. Automated login with OTP is complex and not implemented in this demo. Please resolve on Amazon's website.''"

definition captcha_message :: string where
  "captcha_message = ''Amazon Captcha challenge. Please resolve on Amazon's website.''"

text \<open>
  Lines 232 to 250: the password is submitted, then the order history is fetched
  to verify the login. An error is \<^const>\<open>Inl\<close> of its message.
\<close>

definition submit_password ::
  "env \<Rightarrow> server \<Rightarrow> string \<Rightarrow> form \<Rightarrow> (string + unit) \<times> server" where
  "submit_password e s pass form2 =
     (let formData = assign ''rememberMe'' ''true''
                       (assign ''password'' pass (extractHiddenInputs form2))
      in case client_post e s signin_url formData of
           (Inl m, s1) \<Rightarrow> (Inl m, s1)
         | (Inr _, s1) \<Rightarrow>
             (case client_get e s1 order_history_url of
                (Inl m, s2) \<Rightarrow> (Inl m, s2)
              | (Inr p, s2) \<Rightarrow>
                  if str_includes (response_data p) ''redirectGet''
                     \<or> str_includes (response_data p) ''/ap/signin''
                  then (Inl ''Amazon login failed. Check credentials or solve potential Captcha/MFA on Amazon's website.'', s2)
                  else (Inr (), s2)))"

text \<open>
  Lines 209 to 232: the e-mail address is submitted. When the answer has no
  sign-in form and its body includes the text \<^verbatim>\<open>Enter your password\<close>, the code falls
  through with \<^verbatim>\<open>form\<close> null, and \<^verbatim>\<open>extractHiddenInputs(form)\<close> in line 232 throws
  the \<^verbatim>\<open>TypeError\<close> of a property read on null.
\<close>

definition submit_email ::
  "env \<Rightarrow> server \<Rightarrow> string \<Rightarrow> string \<Rightarrow> form \<Rightarrow> (string + unit) \<times> server" where
  "submit_email e s user pass form1 =
     (let formData = assign ''create'' ''0'' (assign ''email'' user (extractHiddenInputs form1))
      in case client_post e s signin_url formData of
           (Inl m, s1) \<Rightarrow> (Inl m, s1)
         | (Inr p, s1) \<Rightarrow>
             (case signIn p of
                Some form2 \<Rightarrow> submit_password e s1 pass form2
              | None \<Rightarrow>
                  if str_includes (response_data p) ''Enter your password''
                  then (Inl ''Cannot read properties of null (reading 'querySelectorAll')'', s1)
                  else if str_includes (response_data p) ''auth-mfa-otpcode''
                  then (Inl mfa_message, s1)
                  else if str_includes (response_data p) ''/errors/validateCaptcha''
                  then (Inl captcha_message, s1)
                  else (Inl ''Amazon login flow changed or encountered an unexpected page after email submission.'', s1)))"

text \<open>Lines 185 to 199: the sign-in form is looked for on two pages.\<close>

definition login :: "env \<Rightarrow> server \<Rightarrow> string \<Rightarrow> string \<Rightarrow> (string + unit) \<times> server" where
  "login e s user pass =
     (case client_get e s signin_url of
        (Inl m, s1) \<Rightarrow> (Inl m, s1)
      | (Inr p, s1) \<Rightarrow>
          (case signIn p of
             Some form1 \<Rightarrow> submit_email e s1 user pass form1
           | None \<Rightarrow>
               (case client_get e s1 order_history_url of
                  (Inl m, s2) \<Rightarrow> (Inl m, s2)
                | (Inr p', s2) \<Rightarrow>
                    (case signIn p' of
                       None \<Rightarrow> (Inl ''Could not find Amazon login form (initial attempt).'', s2)
                     | Some form1 \<Rightarrow> submit_email e s2 user pass form1))))"

text \<open>
  Lines 172 to 260. The test of the credentials is outside the \<^verbatim>\<open>try\<close> block; an
  error inside it clears the session flag and is thrown again with a prefix.
\<close>

definition ensureAmazonSession :: "env \<Rightarrow> server \<Rightarrow> (string + bool) \<times> server" where
  "ensureAmazonSession e s =
     (if amazonSessionActive s then (Inr True, s)
      else if falsy (AMZ_USER e) \<or> falsy (AMZ_PASS e)
      then (Inl ''Amazon credentials (AMZ_USER, AMZ_PASS) not configured in .env file.'', s)
      else
        (case login e s (case AMZ_USER e of Some u \<Rightarrow> u | None \<Rightarrow> [])
                        (case AMZ_PASS e of Some p \<Rightarrow> p | None \<Rightarrow> []) of
           (Inl m, s1) \<Rightarrow>
             (Inl (''Amazon login process failed: '' @ m), s1\<lparr>amazonSessionActive := False\<rparr>)
         | (Inr _, s1) \<Rightarrow> (Inr True, s1\<lparr>amazonSessionActive := True\<rparr>)))"

text \<open>
  \<^verbatim>\<open>String.prototype.trim\<close>: the white space and line terminators below code unit
  256 are the units 9 to 13, 32 and 160.
\<close>

definition is_space :: "char \<Rightarrow> bool" where
  "is_space c = (let n = of_char c :: nat in (9 \<le> n \<and> n \<le> 13) \<or> n = 32 \<or> n = 160)"

definition trim :: "string \<Rightarrow> string" where
  "trim s = rev (dropWhile is_space (rev (dropWhile is_space s)))"

text \<open>\<^verbatim>\<open>x?.textContent.trim() || d\<close>: the default stands in for a missing element and
  for an empty text.\<close>

definition text_or :: "string option \<Rightarrow> string \<Rightarrow> string" where
  "text_or el d = (case el of None \<Rightarrow> d | Some t \<Rightarrow> if trim t = [] then d else trim t)"

definition geocodeLocation :: "string \<Rightarrow> (rat \<times> rat) option" where
  "geocodeLocation locationString =
     (if locationString = [] then None
      else if str_includes (toLowerCase locationString) ''los angeles'' then Some (34.05, -118.24)
      else if str_includes (toLowerCase locationString) ''chicago'' then Some (41.87, -87.62)
      else if str_includes (toLowerCase locationString) ''new york'' then Some (40.71, -74.00)
      else if str_includes (toLowerCase locationString) ''memphis'' then Some (35.1495, -90.0490)
      else None)"

definition eventSelectors :: "string list" where
  \<open>eventSelectors =
     [''.a-spacing-top-medium.pt-event-card'',
      ''div[data-component="TrackingEventHistory"] div[data-component="TrackingEvent"]'',
      ''div[id^="tracking-event-"]'']\<close>

text \<open>
  The loop over the selectors: the nodes of the first selector that has some, and
  those of the last selector tried when none has.
\<close>

fun select_events ::
  "(string \<Rightarrow> event_card list) \<Rightarrow> string list \<Rightarrow> event_card list \<Rightarrow> event_card list" where
  "select_events q [] nodes = nodes"
| "select_events q (selector # rest) nodes =
     (if length (q selector) > 0 then q selector else select_events q rest (q selector))"

definition card_event :: "event_card \<Rightarrow> ActivityEvent" where
  "card_event eventCard =
     (let description' = text_or (secondaryMessage eventCard) ''Event details missing'';
          location' = text_or (primaryMessage eventCard) [];
          timestamp' = text_or (tertiaryMessage eventCard) []
      in \<lparr>status = (if location' \<noteq> [] then location' else description'),
          description = Some description',
          location = location',
          timestamp = Scraped timestamp',
          geo = geocodeLocation location'\<rparr>)"

definition tracking_url :: "string \<Rightarrow> string" where
  "tracking_url orderId =
     ''https://www.amazon.com/gp/your-account/order-details/ref=ppx_yo_dt_b_order_details?orderID=''
       @ orderId"

text \<open>Lines 278 to 332: the result built from the page of the order.\<close>

definition parse_order_page :: "env \<Rightarrow> page \<Rightarrow> string \<Rightarrow> TrackingResult" where
  "parse_order_page e p orderId =
     (let statusText = (case statusElement p of Some t \<Rightarrow> trim t | None \<Rightarrow> ''Status not found'');
          deliveryEstimate = (case estimateElement p of Some t \<Rightarrow> trim t | None \<Rightarrow> ''N/A'');
          carrierName = (case carrierInfoElement p of Some t \<Rightarrow> trim t
                         | None \<Rightarrow> ''Amazon Logistics'');
          eventNodes' = select_events (eventNodes p) eventSelectors [];
          activity' = map card_event eventNodes'
      in \<lparr>carrier = carrierName,
          trackingNumber = orderId,
          result_status = statusText,
          estimatedDelivery = PageText deliveryEstimate,
          activity =
            (if length activity' > 0 then rev activity'
             else [\<lparr>status = statusText,
                    description = Some (''Current status: '' @ statusText),
                    location = [],
                    timestamp = Iso (t_event e),
                    geo = None\<rparr>])\<rparr>)"

text \<open>Lines 262 to 333.\<close>

definition getAmazonTrackingWithLogin ::
  "env \<Rightarrow> server \<Rightarrow> string \<Rightarrow> (string + TrackingResult) \<times> server" where
  "getAmazonTrackingWithLogin e s orderId =
     (case ensureAmazonSession e s of
        (Inl m, s1) \<Rightarrow> (Inl m, s1)
      | (Inr _, s1) \<Rightarrow>
          (case client_get e s1 (tracking_url orderId) of
             (Inl m, s2) \<Rightarrow> (Inl m, s2)
           | (Inr p, s2) \<Rightarrow> (Inr (parse_order_page e p orderId), s2)))"

section \<open>Live users and the events sent to sockets\<close>

text \<open>
  A coordinate of a live user is a JSON value from the client; \<^verbatim>\<open>src/server.js\<close>
  creates a user without the two fields, \<^verbatim>\<open>src/unnamed/part_000\<close> with both
  \<^verbatim>\<open>null\<close>. The field \<^verbatim>\<open>id\<close> is \<open>user_id\<close> here.
\<close>

datatype coord = Undefined | Null | Num rat

record LiveUser =
  user_id :: string
  username :: string
  avatar :: string
  latitude :: coord
  longitude :: coord

text \<open>
  The payload of \<^verbatim>\<open>user_joined\<close> is \<^verbatim>\<open>liveUsers.get(socket.id)\<close>, which is
  \<^verbatim>\<open>undefined\<close> (\<^const>\<open>None\<close>) for a missing key. The payload of
  \<^verbatim>\<open>tracking_update\<close> is \<^verbatim>\<open>{ trackingNumber, carrier, ...trackingData }\<close>: the spread
  overwrites the two leading properties with those of the result, so the payload
  has the properties of the result.
\<close>

datatype message =
    current_users "LiveUser list"
  | user_joined "LiveUser option"
  | receive_location LiveUser
  | tracking_update TrackingResult

text \<open>
  \<^verbatim>\<open>socket.emit\<close> sends to the socket itself, \<^verbatim>\<open>socket.broadcast.emit\<close> to every
  connected socket but that one, \<^verbatim>\<open>io.emit\<close> to every connected socket.
\<close>

datatype target = ToSender string | ToOthers string | ToAll

type_synonym emission = "target \<times> message"

fun recipients :: "string list \<Rightarrow> target \<Rightarrow> string list" where
  "recipients sockets (ToSender sid) = filter (\<lambda>x. x = sid) sockets"
| "recipients sockets (ToOthers sid) = filter (\<lambda>x. x \<noteq> sid) sockets"
| "recipients sockets ToAll = sockets"

text \<open>The messages that socket \<open>r\<close> receives from a list of emissions.\<close>

definition received :: "string list \<Rightarrow> emission list \<Rightarrow> string \<Rightarrow> message list" where
  "received sockets ems r =
     map snd (filter (\<lambda>em. r \<in> set (recipients sockets (fst em))) ems)"

section \<open>\<^verbatim>\<open>POST /api/track\<close>\<close>

text \<open>
  A response is \<^verbatim>\<open>res.json(x)\<close>, with status 200, or
  \<^verbatim>\<open>res.status(n).json({ error: m })\<close>. The body of the request either has a string
  \<^verbatim>\<open>trackingNumber\<close> or has none; the empty string is falsy.
\<close>

datatype response = Json TrackingResult | Status nat string

text \<open>\<^verbatim>\<open>error.message || 'An error occurred while tracking.'\<close>\<close>

definition error_text :: "string \<Rightarrow> string" where
  "error_text m = (if m = [] then ''An error occurred while tracking.'' else m)"

definition cache_lookup :: "env \<Rightarrow> server \<Rightarrow> string \<Rightarrow> TrackingResult option" where
  "cache_lookup e s cacheKey =
     (case trackingCache s cacheKey of
        None \<Rightarrow> None
      | Some entry \<Rightarrow> if expiry entry > t_check e then Some (data entry) else None)"

definition cache_store :: "env \<Rightarrow> server \<Rightarrow> string \<Rightarrow> TrackingResult \<Rightarrow> server" where
  "cache_store e s cacheKey trackingData =
     s\<lparr>trackingCache := (trackingCache s)
          (cacheKey \<mapsto> \<lparr>data = trackingData, expiry = t_store e + CACHE_TTL\<rparr>)\<rparr>"

text \<open>Lines 97 to 102 of \<^verbatim>\<open>src/server.js\<close>: the dispatch to a strategy.\<close>

definition fetch :: "env \<Rightarrow> server \<Rightarrow> string \<Rightarrow> string \<Rightarrow> (string + TrackingResult) \<times> server" where
  "fetch e s carrier' trackingNumber' =
     (if carrier' = ''amazon''
      then (getAmazonTracking e trackingNumber', s\<lparr>strategy_calls := strategy_calls s + 1\<rparr>)
      else (Inr (getGenericTracking (zone_offset e) (rnd_value e) (t_now e) (t_today e)
                   carrier' trackingNumber'),
            s\<lparr>strategy_calls := strategy_calls s + 1\<rparr>))"

text \<open>Lines 77 to 111 of \<^verbatim>\<open>src/server.js\<close>. This version emits nothing.\<close>

definition track :: "env \<Rightarrow> server \<Rightarrow> string option \<Rightarrow> response \<times> emission list \<times> server" where
  \<open>track e s body =
     (case body of
        None \<Rightarrow> (Status 400 ''Tracking number is required.'', [], s)
      | Some trackingNumber' \<Rightarrow>
          if trackingNumber' = [] then (Status 400 ''Tracking number is required.'', [], s)
          else
            (case detectCarrier trackingNumber' of
               None \<Rightarrow>
                 (Status 400 (''Could not detect carrier for "'' @ trackingNumber' @ ''".''), [], s)
             | Some carrier' \<Rightarrow>
                 (let cacheKey = carrier' @ '':'' @ trackingNumber' in
                  case cache_lookup e s cacheKey of
                    Some cached \<Rightarrow> (Json cached, [], s)
                  | None \<Rightarrow>
                      (case fetch e s carrier' trackingNumber' of
                         (Inr trackingData, s1) \<Rightarrow>
                           (Json trackingData, [], cache_store e s1 cacheKey trackingData)
                       | (Inl m, s1) \<Rightarrow> (Status 500 (error_text m), [], s1)))))\<close>

text \<open>Lines 96 to 103 of \<^verbatim>\<open>src/unnamed/part_000\<close>.\<close>

definition fetch_enh ::
  "env \<Rightarrow> server \<Rightarrow> string \<Rightarrow> string \<Rightarrow> (string + TrackingResult) \<times> server" where
  "fetch_enh e s carrier' trackingNumber' =
     (if carrier' = ''amazon''
      then getAmazonTrackingWithLogin e (s\<lparr>strategy_calls := strategy_calls s + 1\<rparr>) trackingNumber'
      else (Inr (getGenericTracking (zone_offset e) (rnd_value e) (t_now e) (t_today e)
                   carrier' trackingNumber'),
            s\<lparr>strategy_calls := strategy_calls s + 1\<rparr>))"

text \<open>
  Lines 78 to 113 of \<^verbatim>\<open>src/unnamed/part_000\<close>: after the result is stored it is
  sent to every socket.
\<close>

definition track_enh :: "env \<Rightarrow> server \<Rightarrow> string option \<Rightarrow> response \<times> emission list \<times> server" where
  \<open>track_enh e s body =
     (case body of
        None \<Rightarrow> (Status 400 ''Tracking number is required.'', [], s)
      | Some trackingNumber' \<Rightarrow>
          if trackingNumber' = [] then (Status 400 ''Tracking number is required.'', [], s)
          else
            (case detectCarrier_enh trackingNumber' of
               None \<Rightarrow>
                 (Status 400 (''Could not detect carrier for "'' @ trackingNumber' @ ''".''), [], s)
             | Some carrier' \<Rightarrow>
                 (let cacheKey = carrier' @ '':'' @ trackingNumber' in
                  case cache_lookup e s cacheKey of
                    Some cached \<Rightarrow> (Json cached, [], s)
                  | None \<Rightarrow>
                      (case fetch_enh e s carrier' trackingNumber' of
                         (Inr trackingData, s1) \<Rightarrow>
                           (Json trackingData, [(ToAll, tracking_update trackingData)],
                            cache_store e s1 cacheKey trackingData)
                       | (Inl m, s1) \<Rightarrow> (Status 500 (error_text m), [], s1)))))\<close>

section \<open>The socket handlers\<close>

text \<open>
  \<^verbatim>\<open>liveUsers\<close> is a \<^verbatim>\<open>Map\<close>, which keeps its keys in the order of their first
  insertion: \<^verbatim>\<open>set\<close> replaces the value of a present key in place and adds a new
  key at the end. \<open>sockets\<close> are the identifiers of the connected sockets.
\<close>

record hub =
  sockets :: "string list"
  liveUsers :: "(string \<times> LiveUser) list"

fun map_set :: "string \<Rightarrow> LiveUser \<Rightarrow> (string \<times> LiveUser) list \<Rightarrow> (string \<times> LiveUser) list" where
  "map_set k v [] = [(k, v)]"
| "map_set k v ((k', v') # kvs) = (if k' = k then (k, v) # kvs else (k', v') # map_set k v kvs)"






text \<open>
  The handler of \<^verbatim>\<open>send-location\<close>, the same in both versions. The two
  coordinates are \<^verbatim>\<open>data.latitude\<close> and \<^verbatim>\<open>data.longitude\<close>.
\<close>

definition send_location :: "hub \<Rightarrow> string \<Rightarrow> coord \<Rightarrow> coord \<Rightarrow> emission list \<times> hub" where
  "send_location h sid lat lon =
     (case map_of (liveUsers h) sid of
        None \<Rightarrow> ([], h)
      | Some userData \<Rightarrow>
          (let userData' = userData\<lparr>latitude := lat, longitude := lon\<rparr>
           in ([(ToOthers sid, receive_location userData')],
               h\<lparr>liveUsers := map_set sid userData' (liveUsers h)\<rparr>)))"

section \<open>Example inputs\<close>

text \<open>
  A server that has just started, and an environment without Amazon credentials
  in which every request to Amazon fails; its clock readings are \<open>tc\<close>, but for
  the one taken when a result is stored, \<open>ts\<close>.
\<close>

definition fresh_server :: server where
  "fresh_server = \<lparr>trackingCache = Map.empty, amazonSessionActive = False,
                    requests = [], strategy_calls = 0\<rparr>"

definition plain_env :: "instant \<Rightarrow> instant \<Rightarrow> env" where
  "plain_env tc ts =
     \<lparr>t_check = tc, rnd_value = 0.7, t_now = tc, t_today = tc, t_event = tc, t_store = ts,
      zone_offset = 0, AMZ_USER = None, AMZ_PASS = None,
      http = (\<lambda>k. Inl ''Network Error'')\<rparr>"

text \<open>
  An environment in which the session is usable but the request for the order page
  fails with an error whose message is empty.
\<close>

definition no_message_env :: env where
  "no_message_env =
     \<lparr>t_check = 1000, rnd_value = 0.7, t_now = 1000, t_today = 1000, t_event = 1000,
      t_store = 1000, zone_offset = 0, AMZ_USER = Some ''user@example.com'',
      AMZ_PASS = Some ''secret'', http = (\<lambda>k. Inl [])\<rparr>"

text \<open>
  Pages of Amazon as the code sees them: a page with the sign-in form, the page of
  a second-factor challenge, the page of a captcha challenge, the order history
  of a signed-in user, an order page with a status text and no tracking events,
  and an order page with neither.
\<close>

definition signin_page :: page where
  \<open>signin_page =
     \<lparr>response_data = ''<form name="signIn">'', signIn = Some [(''appActionToken'', ''tok'')],
      statusElement = None, estimateElement = None, carrierInfoElement = None,
      eventNodes = (\<lambda>selector. [])\<rparr>\<close>

definition mfa_page :: page where
  \<open>mfa_page =
     \<lparr>response_data = ''<input id="auth-mfa-otpcode">'', signIn = None,
      statusElement = None, estimateElement = None, carrierInfoElement = None,
      eventNodes = (\<lambda>selector. [])\<rparr>\<close>

definition captcha_page :: page where
  \<open>captcha_page =
     \<lparr>response_data = ''<form action="/errors/validateCaptcha">'', signIn = None,
      statusElement = None, estimateElement = None, carrierInfoElement = None,
      eventNodes = (\<lambda>selector. [])\<rparr>\<close>

definition orders_page :: page where
  "orders_page =
     \<lparr>response_data = ''<h1>Your Orders</h1>'', signIn = None,
      statusElement = None, estimateElement = None, carrierInfoElement = None,
      eventNodes = (\<lambda>selector. [])\<rparr>"

definition status_page :: page where
  "status_page =
     \<lparr>response_data = ''<span> Arriving tomorrow </span>'', signIn = None,
      statusElement = Some '' Arriving tomorrow '', estimateElement = None,
      carrierInfoElement = None, eventNodes = (\<lambda>selector. [])\<rparr>"

definition bare_page :: page where
  "bare_page =
     \<lparr>response_data = ''<html></html>'', signIn = None,
      statusElement = None, estimateElement = None, carrierInfoElement = None,
      eventNodes = (\<lambda>selector. [])\<rparr>"

text \<open>
  Environments with configured credentials. In \<open>challenge_env pg\<close> the sign-in page
  is served first and \<open>pg\<close> answers every later request. In \<open>login_env pg\<close> the
  requests up to the fourth get the sign-in page, the next two the order history,
  and every later one \<open>pg\<close>: a login that starts after two or fewer earlier
  requests succeeds. In \<open>order_env pg\<close> every request gets \<open>pg\<close>.
\<close>

definition configured_env :: "(nat \<Rightarrow> string + page) \<Rightarrow> env" where
  "configured_env h =
     \<lparr>t_check = 1000, rnd_value = 0.7, t_now = 1000, t_today = 1000, t_event = 1000,
      t_store = 1000, zone_offset = 0, AMZ_USER = Some ''user@example.com'',
      AMZ_PASS = Some ''secret'', http = h\<rparr>"

definition challenge_env :: "page \<Rightarrow> env" where
  "challenge_env pg = configured_env (\<lambda>k. if k = 0 then Inr signin_page else Inr pg)"

definition login_env :: "page \<Rightarrow> env" where
  "login_env pg =
     configured_env (\<lambda>k. if k \<le> 3 then Inr signin_page
                          else if k \<le> 5 then Inr orders_page else Inr pg)"

definition order_env :: "page \<Rightarrow> env" where
  "order_env pg = configured_env (\<lambda>k. Inr pg)"

text \<open>
  An environment with configured credentials in which the first sign-in request
  gets the order history, which has no sign-in form, the second request the
  sign-in page, and every later request \<open>pg\<close>.
\<close>

definition detour_env :: "page \<Rightarrow> env" where
  "detour_env pg =
     configured_env (\<lambda>k. if k = 0 then Inr orders_page
                          else if k = 1 then Inr signin_page else Inr pg)"

text \<open>Two connected sockets, none of them registered as a user.\<close>

definition two_sockets :: hub where
  "two_sockets = \<lparr>sockets = [''A'', ''B''], liveUsers = []\<rparr>"

section \<open>Properties of the patterns\<close>

lemma matches_Cat_iff:
  "matches ic (Cat a b) s \<longleftrightarrow> (\<exists>k\<le>length s. matches ic a (take k s) \<and> matches ic b (drop k s))"
proof -
  have "(\<exists>k\<in>set [0..<Suc n]. P k) = (\<exists>k\<le>n. P k)" for n and P :: "nat \<Rightarrow> bool"
    by (auto simp del: upt_Suc simp add: less_Suc_eq_le)
  then show ?thesis by (simp only: matches.simps list_ex_iff)
qed

declare matches.simps(3) [simp del]

lemma matches_length:
  "matches ic r s \<Longrightarrow> min_len r \<le> length s \<and> length s \<le> max_len r"
proof (induction r arbitrary: s)
  case (Lit w)
  then show ?case by (simp add: list_all2_lengthD)
next
  case (Rep rs lo hi)
  then show ?case by simp
next
  case (Cat a b)
  from Cat.prems obtain k where k: "k \<le> length s" "matches ic a (take k s)" "matches ic b (drop k s)"
    unfolding matches_Cat_iff by blast
  from Cat.IH(1)[OF k(2)] Cat.IH(2)[OF k(3)] k(1) show ?case by simp linarith
next
  case (Or a b)
  then show ?case by fastforce
qed

lemma matches_Cat_fixed:
  assumes "min_len a = n" "max_len a = n"
  shows "matches ic (Cat a b) s \<longleftrightarrow> n \<le> length s \<and> matches ic a (take n s) \<and> matches ic b (drop n s)"
proof
  assume "matches ic (Cat a b) s"
  then obtain k where k: "k \<le> length s" "matches ic a (take k s)" "matches ic b (drop k s)"
    unfolding matches_Cat_iff by blast
  from matches_length[OF k(2)] assms k(1) have "k = n" by simp
  with k show "n \<le> length s \<and> matches ic a (take n s) \<and> matches ic b (drop n s)" by simp
next
  assume "n \<le> length s \<and> matches ic a (take n s) \<and> matches ic b (drop n s)"
  then show "matches ic (Cat a b) s" unfolding matches_Cat_iff by blast
qed

lemma range_ex:
  assumes "b < 256"
  shows "list_ex (\<lambda>m. char_of m = c) [a..<Suc b] \<longleftrightarrow> a \<le> of_char c \<and> (of_char c :: nat) \<le> b"
proof
  assume "list_ex (\<lambda>m. char_of m = c) [a..<Suc b]"
  then obtain m where "a \<le> m" "m \<le> b" "char_of m = c"
    by (auto simp del: upt_Suc simp add: list_ex_iff less_Suc_eq_le)
  with assms show "a \<le> of_char c \<and> (of_char c :: nat) \<le> b" by auto
next
  assume "a \<le> of_char c \<and> (of_char c :: nat) \<le> b"
  then have "of_char c \<in> set [a..<Suc b]" "char_of (of_char c :: nat) = c"
    by (auto simp del: upt_Suc)
  then show "list_ex (\<lambda>m. char_of m = c) [a..<Suc b]"
    unfolding list_ex_iff by blast
qed

lemma of_char_lt_256: "(of_char (c::char) :: nat) < 256"
  by (metis of_char_mod_256 mod_less_divisor zero_less_numeral)

lemma in_class_cs:
  "in_class False rs c \<longleftrightarrow> list_ex (\<lambda>(lo, hi). (of_char lo :: nat) \<le> of_char c \<and> (of_char c :: nat) \<le> of_char hi) rs"
  unfolding in_class_def char_match_def
  by (simp add: range_ex of_char_lt_256 case_prod_unfold del: upt_Suc)

lemma in_class_digit: "in_class False cls_digit c = is_digit c"
  by (simp add: in_class_cs cls_digit_def is_digit_def)

lemma in_class_2_5: "in_class False cls_2_5 c = (50 \<le> (of_char c::nat) \<and> (of_char c::nat) \<le> 53)"
  by (simp add: in_class_cs cls_2_5_def)

lemma in_class_alnum: "in_class False cls_alnum c = is_alnum c"
  by (auto simp add: in_class_cs cls_alnum_def is_alnum_def is_digit_def is_upper_def is_lower_def)

lemma in_class_alpha: "in_class False cls_alpha c = (is_upper c \<or> is_lower c)"
  by (auto simp add: in_class_cs cls_alpha_def is_upper_def is_lower_def)

lemma in_class_digit_upper: "in_class False cls_digit_upper c = (is_digit c \<or> is_upper c)"
  by (auto simp add: in_class_cs cls_digit_upper_def is_upper_def is_digit_def)

lemma set_upt_Suc_iff: "m \<in> set [a..<Suc b] \<longleftrightarrow> a \<le> m \<and> m \<le> b"
  by (auto simp del: upt_Suc)

lemma canonicalize_cn: "canonicalize c = cn (of_char c)"
  by (simp only: canonicalize_def cn_def Let_def)

lemma canonicalize_char_of: "m < 256 \<Longrightarrow> canonicalize (char_of m) = cn m"
  by (simp add: canonicalize_cn)

lemma cn_digit: "n < 256 \<Longrightarrow> (48 \<le> cn n \<and> cn n \<le> 57) = (48 \<le> n \<and> n \<le> 57)"
  unfolding cn_def by (simp split: if_splits) arith

lemma cn_upper: "n < 256 \<Longrightarrow> (65 \<le> cn n \<and> cn n \<le> 90) = (65 \<le> n \<and> n \<le> 90 \<or> 97 \<le> n \<and> n \<le> 122)"
  unfolding cn_def by (simp split: if_splits) arith

lemma cn_id: "n < 97 \<Longrightarrow> cn n = n"
  by (simp add: cn_def)

lemma cn_low: "97 \<le> n \<Longrightarrow> n \<le> 122 \<Longrightarrow> cn n = n - 32"
  by (simp add: cn_def)

lemma range_ex_i_digit:
  "list_ex (\<lambda>m. char_match True (char_of m) c) [48..<Suc 57] \<longleftrightarrow> is_digit c"
proof -
  have "(\<exists>m::nat. (48 \<le> m \<and> m \<le> 57) \<and> canonicalize (char_of m) = canonicalize c)
        \<longleftrightarrow> (48 \<le> cn (of_char c) \<and> cn (of_char c) \<le> 57)"
    by (auto simp: canonicalize_char_of cn_id canonicalize_cn)
  then show ?thesis
    unfolding list_ex_iff Bex_def set_upt_Suc_iff char_match_def is_digit_def
    by (simp only: if_True cn_digit[OF of_char_lt_256])
qed

lemma range_ex_i_upper:
  "list_ex (\<lambda>m. char_match True (char_of m) c) [65..<Suc 90] \<longleftrightarrow> is_upper c \<or> is_lower c"
proof -
  have "(\<exists>m::nat. (65 \<le> m \<and> m \<le> 90) \<and> canonicalize (char_of m) = canonicalize c)
        \<longleftrightarrow> (65 \<le> cn (of_char c) \<and> cn (of_char c) \<le> 90)"
    by (auto simp: canonicalize_char_of cn_id canonicalize_cn)
  then show ?thesis
    unfolding list_ex_iff Bex_def set_upt_Suc_iff char_match_def is_upper_def is_lower_def
    by (simp only: if_True cn_upper[OF of_char_lt_256])
qed

lemma range_ex_i_lower:
  "list_ex (\<lambda>m. char_match True (char_of m) c) [97..<Suc 122] \<longleftrightarrow> is_upper c \<or> is_lower c"
proof -
  have "(\<exists>m::nat. (97 \<le> m \<and> m \<le> 122) \<and> canonicalize (char_of m) = canonicalize c)
        \<longleftrightarrow> (65 \<le> cn (of_char c) \<and> cn (of_char c) \<le> 90)" (is "?L = ?R")
  proof
    assume ?L
    then obtain m :: nat where m: "97 \<le> m" "m \<le> 122" "canonicalize (char_of m) = canonicalize c"
      by blast
    then have "cn (of_char c) = m - 32" by (simp add: canonicalize_char_of cn_low canonicalize_cn)
    with m(1,2) show ?R by arith
  next
    assume r: ?R
    let ?m = "cn (of_char c) + 32"
    from r have "97 \<le> ?m" "?m \<le> 122" by simp_all
    moreover from this have "canonicalize (char_of ?m) = canonicalize c"
      by (simp add: canonicalize_char_of cn_low canonicalize_cn)
    ultimately show ?L by blast
  qed
  then show ?thesis
    unfolding list_ex_iff Bex_def set_upt_Suc_iff char_match_def is_upper_def is_lower_def
    by (simp only: if_True cn_upper[OF of_char_lt_256])
qed

lemma in_class_i_digit_upper: "in_class True cls_digit_upper c = is_alnum c"
  unfolding in_class_def cls_digit_upper_def is_alnum_def
  using range_ex_i_digit[of c] range_ex_i_upper[of c]
  by (simp del: upt_Suc)

lemma in_class_i_alnum: "in_class True cls_alnum c = is_alnum c"
  unfolding in_class_def cls_alnum_def is_alnum_def
  using range_ex_i_digit[of c] range_ex_i_upper[of c] range_ex_i_lower[of c]
  by (auto simp del: upt_Suc)

lemma in_class_i_alpha: "in_class True cls_alpha c = (is_upper c \<or> is_lower c)"
  unfolding in_class_def cls_alpha_def
  using range_ex_i_upper[of c] range_ex_i_lower[of c]
  by (auto simp del: upt_Suc)

lemma matches_Cat_fix:
  "min_len a = max_len a \<Longrightarrow>
   matches ic (Cat a b) s \<longleftrightarrow>
     min_len a \<le> length s \<and> matches ic a (take (min_len a) s) \<and> matches ic b (drop (min_len a) s)"
  by (rule matches_Cat_fixed[OF refl]) simp

lemma len_ups: "matches ic re_ups s \<Longrightarrow> length s = 18"
  using matches_length[of ic re_ups s] by (simp add: re_ups_def)

lemma len_fedex: "matches ic re_fedex s \<Longrightarrow> length s = 12 \<or> length s = 15"
  by (auto simp: re_fedex_def)

lemma len_dhl: "matches ic re_dhl s \<Longrightarrow> length s = 13"
  using matches_length[of ic re_dhl s] by (simp add: re_dhl_def)

lemma len_usps: "matches ic re_usps s \<Longrightarrow> 22 \<le> length s \<and> length s \<le> 24"
  using matches_length[of ic re_usps s] by (simp add: re_usps_def)

lemma len_amazon: "matches ic re_amazon s \<Longrightarrow> length s = 19"
  using matches_length[of ic re_amazon s] by (simp add: re_amazon_def)

lemma amazon_closed:
  assumes "length a = 3" "length b = 7" "length c = 7"
  shows "matches ic re_amazon (a @ ''-'' @ b @ ''-'' @ c) \<longleftrightarrow>
         list_all (in_class ic cls_digit_upper) (a @ b @ c)"
  using assms by (simp add: re_amazon_def matches_Cat_fix char_match_def) 

lemma fedex_closed:
  "matches False re_fedex s \<longleftrightarrow> (length s = 12 \<or> length s = 15) \<and> list_all is_digit s"
  by (auto simp: re_fedex_def in_class_digit[abs_def])

lemma ups_closed:
  assumes "length b = 16"
  shows "matches ic re_ups (p @ b) \<longleftrightarrow>
         (matches ic (Lit ''1Z'') p \<or> matches ic (Lit ''1z'') p) \<and> list_all (in_class ic cls_alnum) b"
proof (cases "length p = 2")
  case True
  with assms show ?thesis by (simp add: re_ups_def matches_Cat_fix) 
next
  case False
  then have "\<not> matches ic re_ups (p @ b)" using len_ups[of ic "p @ b"] assms by auto
  moreover from False have "\<not> (matches ic (Lit ''1Z'') p \<or> matches ic (Lit ''1z'') p)"
    by (auto dest: list_all2_lengthD)
  ultimately show ?thesis by simp
qed

lemma dhl_closed:
  assumes "length a = 2" "length b = 9" "length c = 2"
  shows "matches ic re_dhl (a @ b @ c) \<longleftrightarrow>
     list_all (in_class ic cls_alpha) a \<and> list_all (in_class ic cls_digit) b \<and> list_all (in_class ic cls_alpha) c"
  using assms by (simp add: re_dhl_def matches_Cat_fix)

lemma usps_closed:
  assumes "20 \<le> length d" "length d \<le> 22"
  shows "matches False re_usps (CHR ''9'' # x # d) \<longleftrightarrow>
     (50 \<le> (of_char x::nat) \<and> (of_char x::nat) \<le> 53) \<and> list_all is_digit d"
  using assms by (simp add: re_usps_def matches_Cat_fix char_match_def in_class_2_5 in_class_digit[abs_def])

lemma detect_ups:
  assumes "length b = 16" "list_all is_alnum b" "p = ''1Z'' \<or> p = ''1z''"
  shows "detectCarrier (p @ b) = Some ''ups''" "detectCarrier_enh (p @ b) = Some ''ups''"
proof -
  from assms have "matches ic re_ups (p @ b)" for ic
    unfolding ups_closed[OF assms(1)]
    by (cases ic) (auto simp: in_class_alnum[abs_def] in_class_i_alnum[abs_def] char_match_def)
  then show "detectCarrier (p @ b) = Some ''ups''" "detectCarrier_enh (p @ b) = Some ''ups''"
    by (simp_all add: detectCarrier_def detectCarrier_enh_def test_def test_i_def)
qed

lemma detect_fedex:
  assumes "length d = 12 \<or> length d = 15" "list_all is_digit d"
  shows "detectCarrier d = Some ''fedex''" "detectCarrier_enh d = Some ''fedex''"
proof -
  from assms have "\<not> matches ic re_ups d" for ic using len_ups[of ic d] by auto
  moreover from assms have "matches False re_fedex d" by (simp add: fedex_closed)
  ultimately show "detectCarrier d = Some ''fedex''" "detectCarrier_enh d = Some ''fedex''"
    by (simp_all add: detectCarrier_def detectCarrier_enh_def test_def test_i_def)
qed

lemma detect_dhl:
  assumes "length a = 2" "length b = 9" "length c = 2"
    "list_all (\<lambda>x. is_upper x \<or> is_lower x) (a @ c)" "list_all is_digit b"
  shows "detectCarrier (a @ b @ c) = Some ''dhl''" "detectCarrier_enh (a @ b @ c) = Some ''dhl''"
proof -
  from assms have "\<not> matches ic re_ups (a @ b @ c)" for ic using len_ups[of ic "a @ b @ c"] by auto
  moreover from assms have "\<not> matches ic re_fedex (a @ b @ c)" for ic
    using len_fedex[of ic "a @ b @ c"] by auto
  moreover have "in_class True cls_digit x" if "is_digit x" for x
  proof -
    from that have "in_class False cls_digit x" by (simp add: in_class_digit)
    then show ?thesis by (auto simp: in_class_def char_match_def list_ex_iff)
  qed
  with assms have "matches ic re_dhl (a @ b @ c)" for ic
    unfolding dhl_closed[OF assms(1-3)]
    by (cases ic) (auto simp: in_class_alpha[abs_def] in_class_i_alpha[abs_def] in_class_digit[abs_def] list_all_iff)
  ultimately show "detectCarrier (a @ b @ c) = Some ''dhl''" "detectCarrier_enh (a @ b @ c) = Some ''dhl''"
    by (simp_all add: detectCarrier_def detectCarrier_enh_def test_def test_i_def)
qed

lemma detect_usps:
  assumes "20 \<le> length d" "length d \<le> 22" "list_all is_digit d" "x \<in> set ''2345''"
  shows "detectCarrier (CHR ''9'' # x # d) = Some ''usps''"
        "detectCarrier_enh (CHR ''9'' # x # d) = Some ''usps''"
proof -
  let ?s = "CHR ''9'' # x # d"
  from assms have "\<not> matches ic re_ups ?s" for ic using len_ups[of ic ?s] by auto
  moreover from assms have "\<not> matches ic re_fedex ?s" for ic using len_fedex[of ic ?s] by auto
  moreover from assms have "\<not> matches ic re_dhl ?s" for ic using len_dhl[of ic ?s] by auto
  moreover from assms have "matches False re_usps ?s"
    unfolding usps_closed[OF assms(1,2)] by auto
  ultimately show "detectCarrier ?s = Some ''usps''" "detectCarrier_enh ?s = Some ''usps''"
    by (simp_all add: detectCarrier_def detectCarrier_enh_def test_def test_i_def)
qed

lemma detect_len19:
  assumes "length s = 19"
  shows "detectCarrier s = (if matches False re_amazon s then Some ''amazon'' else None)"
    "detectCarrier_enh s = (if matches True re_amazon s then Some ''amazon'' else None)"
proof -
  from assms have "\<not> matches ic re_ups s" for ic using len_ups[of ic s] by auto
  moreover from assms have "\<not> matches ic re_fedex s" for ic using len_fedex[of ic s] by auto
  moreover from assms have "\<not> matches ic re_dhl s" for ic using len_dhl[of ic s] by auto
  moreover from assms have "\<not> matches ic re_usps s" for ic using len_usps[of ic s] by auto
  ultimately show "detectCarrier s = (if matches False re_amazon s then Some ''amazon'' else None)"
    "detectCarrier_enh s = (if matches True re_amazon s then Some ''amazon'' else None)"
    by (simp_all add: detectCarrier_def detectCarrier_enh_def test_def test_i_def)
qed

lemma detect_len10:
  assumes "length s = 10"
  shows "detectCarrier s = None" "detectCarrier_enh s = None"
proof -
  from assms have "\<not> matches ic re_ups s" for ic using len_ups[of ic s] by auto
  moreover from assms have "\<not> matches ic re_fedex s" for ic using len_fedex[of ic s] by auto
  moreover from assms have "\<not> matches ic re_dhl s" for ic using len_dhl[of ic s] by auto
  moreover from assms have "\<not> matches ic re_usps s" for ic using len_usps[of ic s] by auto
  moreover from assms have "\<not> matches ic re_amazon s" for ic using len_amazon[of ic s] by auto
  ultimately show "detectCarrier s = None" "detectCarrier_enh s = None"
    by (simp_all add: detectCarrier_def detectCarrier_enh_def test_def test_i_def)
qed

lemma detect_amazon_shape:
  assumes "length a = 3" "length b = 7" "length c = 7"
  shows "detectCarrier (a @ ''-'' @ b @ ''-'' @ c) =
           (if list_all (\<lambda>x. is_digit x \<or> is_upper x) (a @ b @ c) then Some ''amazon'' else None)"
        "detectCarrier_enh (a @ ''-'' @ b @ ''-'' @ c) =
           (if list_all is_alnum (a @ b @ c) then Some ''amazon'' else None)"
proof -
  from assms have len: "length (a @ ''-'' @ b @ ''-'' @ c) = 19" by simp
  show "detectCarrier (a @ ''-'' @ b @ ''-'' @ c) =
           (if list_all (\<lambda>x. is_digit x \<or> is_upper x) (a @ b @ c) then Some ''amazon'' else None)"
    unfolding detect_len19(1)[OF len] amazon_closed[OF assms] in_class_digit_upper[abs_def] ..
  show "detectCarrier_enh (a @ ''-'' @ b @ ''-'' @ c) =
           (if list_all is_alnum (a @ b @ c) then Some ''amazon'' else None)"
    unfolding detect_len19(2)[OF len] amazon_closed[OF assms] in_class_i_digit_upper[abs_def] ..
qed

lemma toLowerCase_alnum: "list_all is_alnum s \<Longrightarrow> list_all is_alnum (toLowerCase s)"
  by (induction s) (auto simp: toLowerCase_def is_alnum_def is_digit_def is_upper_def is_lower_def Let_def)

lemma toLowerCase_append: "toLowerCase (s @ t) = toLowerCase s @ toLowerCase t"
  by (simp add: toLowerCase_def)

lemma toLowerCase_hyphen: "toLowerCase ''-'' = ''-''"
  by (simp add: toLowerCase_def)

lemma toLowerCase_length: "length (toLowerCase s) = length s"
  by (simp add: toLowerCase_def)

text \<open>
  Claim C5, as the code has it. In \<^verbatim>\<open>src/unnamed/part_000\<close> the Amazon pattern
  carries the \<^verbatim>\<open>i\<close> flag: every identifier of the shape XXX-XXXXXXX-XXXXXXX with
  alphanumeric X of either case is classified as Amazon, and so is its lower-cased
  form. In \<^verbatim>\<open>src/server.js\<close> the pattern has no flag: such an identifier is
  classified as Amazon exactly when it has no lower-case letter, and is not
  detected at all otherwise.
\<close>

theorem amazon_rule_case:
  assumes "length a = 3" "length b = 7" "length c = 7" "list_all is_alnum (a @ b @ c)"
  shows "detectCarrier_enh (a @ ''-'' @ b @ ''-'' @ c) = Some ''amazon'' \<and>
         detectCarrier_enh (toLowerCase (a @ ''-'' @ b @ ''-'' @ c)) = Some ''amazon'' \<and>
         detectCarrier (a @ ''-'' @ b @ ''-'' @ c) =
           (if list_ex is_lower (a @ b @ c) then None else Some ''amazon'')"
proof (intro conjI)
  show "detectCarrier_enh (a @ ''-'' @ b @ ''-'' @ c) = Some ''amazon''"
    unfolding detect_amazon_shape(2)[OF assms(1-3)] using assms(4) by simp
  have "list_all is_alnum (toLowerCase a @ toLowerCase b @ toLowerCase c)"
    using toLowerCase_alnum[OF assms(4)] by (simp only: toLowerCase_append)
  moreover have "detectCarrier_enh (toLowerCase a @ ''-'' @ toLowerCase b @ ''-'' @ toLowerCase c) =
           (if list_all is_alnum (toLowerCase a @ toLowerCase b @ toLowerCase c) then Some ''amazon'' else None)"
    by (rule detect_amazon_shape(2)) (simp_all add: toLowerCase_length assms)
  ultimately show "detectCarrier_enh (toLowerCase (a @ ''-'' @ b @ ''-'' @ c)) = Some ''amazon''"
    by (simp only: toLowerCase_append toLowerCase_hyphen if_True)
  have "list_all (\<lambda>x. is_digit x \<or> is_upper x) s = (\<not> list_ex is_lower s)" if "list_all is_alnum s" for s
    using that by (induction s) (auto simp: is_alnum_def is_digit_def is_upper_def is_lower_def)
  from this[OF assms(4)]
  show "detectCarrier (a @ ''-'' @ b @ ''-'' @ c) =
           (if list_ex is_lower (a @ b @ c) then None else Some ''amazon'')"
    unfolding detect_amazon_shape(1)[OF assms(1-3)] by simp
qed

theorem amazon_rule_case_witness:
  "detectCarrier_enh ''aB3-1234567-xyZ4567'' = Some ''amazon'' \<and>
   detectCarrier_enh (toLowerCase ''aB3-1234567-xyZ4567'') = Some ''amazon'' \<and>
   detectCarrier ''aB3-1234567-xyZ4567'' = None \<and>
   detectCarrier ''AB3-1234567-XYZ4567'' = Some ''amazon''"
  using amazon_rule_case[of "''aB3''" "''1234567''" "''xyZ4567''"]
        amazon_rule_case[of "''AB3''" "''1234567''" "''XYZ4567''"]
  by (simp add: is_alnum_def is_digit_def is_upper_def is_lower_def)

lemma toLowerCase_example: "toLowerCase ''ABC-1234567-1234567'' = ''abc-1234567-1234567''"
  by code_simp

text \<open>
  In \<^verbatim>\<open>src/server.js\<close> an identifier of the Amazon shape and its lower-cased form
  are classified differently.
\<close>

theorem amazon_rule_case_sensitive_counterexample:
  "detectCarrier ''ABC-1234567-1234567'' = Some ''amazon'' \<and>
   toLowerCase ''ABC-1234567-1234567'' = ''abc-1234567-1234567'' \<and>
   detectCarrier ''abc-1234567-1234567'' = None"
  using detect_amazon_shape(1)[of "''ABC''" "''1234567''" "''1234567''"]
        detect_amazon_shape(1)[of "''abc''" "''1234567''" "''1234567''"]
  by (simp add: is_digit_def is_upper_def toLowerCase_example)

lemma cn_eq_small: "n < 256 \<Longrightarrow> k < 65 \<Longrightarrow> cn n = k \<longleftrightarrow> n = k"
  unfolding cn_def by (simp split: if_splits) arith

lemma cn_eq_90: "n < 256 \<Longrightarrow> cn n = 90 \<longleftrightarrow> n = 90 \<or> n = 122"
  unfolding cn_def by (simp split: if_splits) arith

lemma char_match_hyphen: "char_match ic (CHR ''-'') c \<longleftrightarrow> c = CHR ''-''"
proof (cases ic)
  case False then show ?thesis by (auto simp: char_match_def)
next
  case True
  have "cn (of_char c) = 45 \<longleftrightarrow> (of_char c :: nat) = 45"
    by (rule cn_eq_small[OF of_char_lt_256]) simp
  also have "\<dots> \<longleftrightarrow> (of_char c :: nat) = of_char (CHR ''-'')" by simp
  also have "\<dots> \<longleftrightarrow> c = CHR ''-''" by (rule of_char_eq_iff)
  finally show ?thesis using True by (auto simp: char_match_def canonicalize_cn cn_def)
qed

lemma char_match_1: "char_match ic (CHR ''1'') c \<longleftrightarrow> c = CHR ''1''"
proof (cases ic)
  case False then show ?thesis by (auto simp: char_match_def)
next
  case True
  have "cn (of_char c) = 49 \<longleftrightarrow> (of_char c :: nat) = 49"
    by (rule cn_eq_small[OF of_char_lt_256]) simp
  also have "\<dots> \<longleftrightarrow> (of_char c :: nat) = of_char (CHR ''1'')" by simp
  also have "\<dots> \<longleftrightarrow> c = CHR ''1''" by (rule of_char_eq_iff)
  finally show ?thesis using True by (auto simp: char_match_def canonicalize_cn cn_def)
qed

lemma char_match_i_Z:
  "char_match True (CHR ''Z'') c \<longleftrightarrow> c = CHR ''Z'' \<or> c = CHR ''z''"
  "char_match True (CHR ''z'') c \<longleftrightarrow> c = CHR ''Z'' \<or> c = CHR ''z''"
proof -
  have "cn (of_char c) = 90 \<longleftrightarrow> (of_char c :: nat) = 90 \<or> (of_char c :: nat) = 122"
    by (rule cn_eq_90[OF of_char_lt_256])
  also have "\<dots> \<longleftrightarrow> (of_char c :: nat) = of_char (CHR ''Z'') \<or> (of_char c :: nat) = of_char (CHR ''z'')"
    by simp
  also have "\<dots> \<longleftrightarrow> c = CHR ''Z'' \<or> c = CHR ''z''" by (simp only: of_char_eq_iff)
  finally have *: "cn (of_char c) = 90 \<longleftrightarrow> c = CHR ''Z'' \<or> c = CHR ''z''" .
  show "char_match True (CHR ''Z'') c \<longleftrightarrow> c = CHR ''Z'' \<or> c = CHR ''z''"
    using * by (auto simp: char_match_def canonicalize_cn cn_def)
  show "char_match True (CHR ''z'') c \<longleftrightarrow> c = CHR ''Z'' \<or> c = CHR ''z''"
    using * by (auto simp: char_match_def canonicalize_cn cn_def)
qed

lemma in_class_i_digit: "in_class True cls_digit c = is_digit c"
  unfolding in_class_def cls_digit_def
  using range_ex_i_digit[of c] by (simp del: upt_Suc)

lemma ups_iff: "matches ic re_ups s \<longleftrightarrow> spec_ups s"
proof (cases "length s = 18")
  case False
  have "\<not> spec_ups s"
  proof (cases s)
    case Nil then show ?thesis by simp
  next
    case (Cons a t)
    show ?thesis
    proof (cases t)
      case Nil with Cons show ?thesis by simp
    next
      case (Cons b rest)
      with \<open>s = a # t\<close> False show ?thesis by auto
    qed
  qed
  with False len_ups[of ic s] show ?thesis by blast
next
  case True
  then obtain a b rest where s: "s = a # b # rest" and r: "length rest = 16"
    by (cases s; cases "tl s") auto
  have "matches ic re_ups ([a, b] @ rest) \<longleftrightarrow>
         (matches ic (Lit ''1Z'') [a, b] \<or> matches ic (Lit ''1z'') [a, b]) \<and>
         list_all (in_class ic cls_alnum) rest"
    by (rule ups_closed[OF r])
  moreover have "list_all (in_class ic cls_alnum) rest = list_all is_alnum rest"
    by (cases ic) (simp_all add: in_class_alnum[abs_def] in_class_i_alnum[abs_def])
  moreover have "(matches ic (Lit ''1Z'') [a, b] \<or> matches ic (Lit ''1z'') [a, b]) \<longleftrightarrow>
      a = CHR ''1'' \<and> (b = CHR ''Z'' \<or> b = CHR ''z'')"
    by (cases ic) (auto simp: char_match_1 char_match_i_Z, auto simp: char_match_def)
  ultimately show ?thesis using s r by simp
qed

lemma fedex_iff: "matches False re_fedex s \<longleftrightarrow> spec_fedex s"
  by (simp add: fedex_closed spec_fedex_def)

lemma dhl_iff: "matches ic re_dhl s \<longleftrightarrow> spec_dhl s"
proof (cases "length s = 13")
  case False
  with len_dhl[of ic s] show ?thesis by (auto simp: spec_dhl_def)
next
  case True
  have "take 9 (drop 2 s) @ drop 11 s = take 9 (drop 2 s) @ drop 9 (drop 2 s)" by simp
  then have "take 2 s @ take 9 (drop 2 s) @ drop 11 s = take 2 s @ drop 2 s"
    by (simp only: append_take_drop_id)
  then have s: "s = take 2 s @ take 9 (drop 2 s) @ drop 11 s" by simp
  have "matches ic re_dhl (take 2 s @ take 9 (drop 2 s) @ drop 11 s) \<longleftrightarrow>
     list_all (in_class ic cls_alpha) (take 2 s) \<and>
     list_all (in_class ic cls_digit) (take 9 (drop 2 s)) \<and>
     list_all (in_class ic cls_alpha) (drop 11 s)"
    by (rule dhl_closed) (simp_all add: True)
  moreover have "in_class ic cls_alpha = is_letter" "in_class ic cls_digit = is_digit"
    by (cases ic; simp add: fun_eq_iff in_class_alpha in_class_i_alpha in_class_digit
          in_class_i_digit is_letter_def)+
  ultimately show ?thesis using s True by (simp add: spec_dhl_def)
qed

lemma usps_iff: "matches False re_usps s \<longleftrightarrow> spec_usps s"
proof (cases "22 \<le> length s \<and> length s \<le> 24")
  case False
  have "\<not> spec_usps s"
  proof (cases s)
    case Nil then show ?thesis by simp
  next
    case (Cons a t)
    show ?thesis
    proof (cases t)
      case Nil with Cons show ?thesis by simp
    next
      case (Cons b rest)
      with \<open>s = a # t\<close> False show ?thesis by auto
    qed
  qed
  with False len_usps[of False s] show ?thesis by blast
next
  case True
  then obtain a b rest where s: "s = a # b # rest" and r: "20 \<le> length rest" "length rest \<le> 22"
    by (cases s; cases "tl s") auto
  have "matches False re_usps s \<longleftrightarrow>
      a = CHR ''9'' \<and> (50 \<le> (of_char b::nat) \<and> (of_char b::nat) \<le> 53) \<and> list_all is_digit rest"
    unfolding s using r
    by (auto simp add: re_usps_def matches_Cat_fix char_match_def in_class_2_5 in_class_digit[abs_def])
  then show ?thesis using s r by auto
qed

lemma amazon_iff:
  "matches ic re_amazon s \<longleftrightarrow>
     length s = 19 \<and> list_all (in_class ic cls_digit_upper) (take 3 s) \<and>
     take 1 (drop 3 s) = ''-'' \<and> list_all (in_class ic cls_digit_upper) (take 7 (drop 4 s)) \<and>
     take 1 (drop 11 s) = ''-'' \<and> list_all (in_class ic cls_digit_upper) (drop 12 s)"
proof (cases "length s = 19")
  case False
  with len_amazon[of ic s] show ?thesis by auto
next
  case True
  have lit: "list_all2 (char_match ic) ''-'' t \<longleftrightarrow> t = ''-''" for t
    by (cases t; cases "tl t") (auto simp: char_match_hyphen)
  show ?thesis using True
    by (simp add: re_amazon_def matches_Cat_fix lit min_def) 
qed

lemma amazon_enh_spec: "matches True re_amazon s \<longleftrightarrow> spec_amazon s"
  unfolding amazon_iff spec_amazon_def in_class_i_digit_upper[abs_def] ..

lemma no_lower_iff:
  "list_all is_alnum t \<Longrightarrow> list_all (\<lambda>x. is_digit x \<or> is_upper x) t \<longleftrightarrow> \<not> list_ex is_lower t"
  by (induction t) (auto simp: is_alnum_def is_digit_def is_upper_def is_lower_def)

lemma amazon_parts:
  assumes "length s = 19"
  shows "s = take 3 s @ take 1 (drop 3 s) @ take 7 (drop 4 s) @ take 1 (drop 11 s) @ drop 12 s"
proof -
  have "take 1 (drop 11 s) @ drop 12 s = drop 11 s"
    using append_take_drop_id[of 1 "drop 11 s"] by simp
  moreover have "take 7 (drop 4 s) @ drop 11 s = drop 4 s"
    using append_take_drop_id[of 7 "drop 4 s"] by simp
  moreover have "take 1 (drop 3 s) @ drop 4 s = drop 3 s"
    using append_take_drop_id[of 1 "drop 3 s"] by simp
  ultimately show ?thesis by simp
qed

lemma amazon_lower_parts:
  assumes "length s = 19" "take 1 (drop 3 s) = ''-''" "take 1 (drop 11 s) = ''-''"
  shows "list_ex is_lower s \<longleftrightarrow>
     list_ex is_lower (take 3 s @ take 7 (drop 4 s) @ drop 12 s)"
proof -
  have h: "\<not> is_lower (CHR ''-'')" by (simp add: is_lower_def)
  have "list_ex is_lower s \<longleftrightarrow>
     list_ex is_lower (take 3 s @ take 1 (drop 3 s) @ take 7 (drop 4 s) @ take 1 (drop 11 s) @ drop 12 s)"
    using amazon_parts[OF assms(1)] by simp
  also have "\<dots> \<longleftrightarrow> list_ex is_lower (take 3 s @ take 7 (drop 4 s) @ drop 12 s)"
    unfolding assms(2,3) using h by (simp add: list_ex_iff)
  finally show ?thesis .
qed

lemma amazon_srv_spec:
  "matches False re_amazon s \<longleftrightarrow> spec_amazon s \<and> \<not> list_ex is_lower s"
proof (cases "length s = 19 \<and> take 1 (drop 3 s) = ''-'' \<and> take 1 (drop 11 s) = ''-''")
  case False
  then show ?thesis by (auto simp: amazon_iff spec_amazon_def)
next
  case True
  let ?t = "take 3 s @ take 7 (drop 4 s) @ drop 12 s"
  have m: "matches False re_amazon s \<longleftrightarrow> list_all (\<lambda>x. is_digit x \<or> is_upper x) ?t"
    using True by (simp add: amazon_iff in_class_digit_upper[abs_def])
  have sp: "spec_amazon s \<longleftrightarrow> list_all is_alnum ?t"
    using True by (simp add: spec_amazon_def)
  have lo: "list_ex is_lower s \<longleftrightarrow> list_ex is_lower ?t"
    using True by (intro amazon_lower_parts) simp_all
  have du: "list_all (\<lambda>x. is_digit x \<or> is_upper x) ?t \<Longrightarrow> list_all is_alnum ?t"
    by (auto simp: list_all_iff is_alnum_def)
  show ?thesis
    unfolding m sp lo using no_lower_iff[of ?t] du by blast
qed

lemma spec_lengths:
  "spec_ups s \<Longrightarrow> length s = 18"
  "spec_fedex s \<Longrightarrow> length s = 12 \<or> length s = 15"
  "spec_dhl s \<Longrightarrow> length s = 13"
  "spec_usps s \<Longrightarrow> 22 \<le> length s \<and> length s \<le> 24"
  "spec_amazon s \<Longrightarrow> length s = 19"
  using len_ups[of False s] len_usps[of False s]
  by (auto simp: ups_iff usps_iff spec_fedex_def spec_dhl_def spec_amazon_def)

lemma detectCarrier_enh_spec: "detectCarrier_enh s = first_match spec_rules s"
  by (simp add: detectCarrier_enh_def spec_rules_def test_def test_i_def
        ups_iff fedex_iff dhl_iff usps_iff amazon_enh_spec)

lemma detectCarrier_spec:
  "detectCarrier s =
     (if spec_amazon s \<and> list_ex is_lower s then None else first_match spec_rules s)"
proof (cases "spec_amazon s")
  case False
  then show ?thesis
    by (simp add: detectCarrier_def spec_rules_def test_def
        ups_iff fedex_iff dhl_iff usps_iff amazon_srv_spec)
next
  case True
  from spec_lengths(5)[OF True] have "\<not> spec_ups s" "\<not> spec_fedex s" "\<not> spec_dhl s" "\<not> spec_usps s"
    using spec_lengths(1-4)[of s] by auto
  with True show ?thesis
    by (simp add: detectCarrier_def spec_rules_def test_def
        ups_iff fedex_iff dhl_iff usps_iff amazon_srv_spec)
qed

text \<open>
  Claim C3, as the code has it. In \<^verbatim>\<open>src/unnamed/part_000\<close>, for every identifier,
  \<^verbatim>\<open>detectCarrier\<close> returns the tag of the first of the five rules of the
  specification, in the order UPS, FedEx, DHL, USPS, Amazon, that the whole
  identifier matches, and no tag when it matches none. In \<^verbatim>\<open>src/server.js\<close> the
  same holds but for the Amazon rule, which accepts digits and upper-case letters
  only: an identifier of the Amazon shape with a lower-case letter gets no tag.
  In both versions the examples of the specification are classified as it says,
  every string of 12 digits as FedEx and every string of 22 digits that starts
  with 92 as USPS.
\<close>

theorem detectCarrier_first_match:
  "detectCarrier_enh s = first_match spec_rules s \<and>
   detectCarrier s =
     (if spec_amazon s \<and> list_ex is_lower s then None else first_match spec_rules s) \<and>
   detectCarrier ''1Z12345678901234AB'' = Some ''ups'' \<and>
   detectCarrier_enh ''1Z12345678901234AB'' = Some ''ups'' \<and>
   (length d12 = 12 \<and> list_all is_digit d12 \<longrightarrow>
      detectCarrier d12 = Some ''fedex'' \<and> detectCarrier_enh d12 = Some ''fedex'') \<and>
   detectCarrier ''AB123456789CD'' = Some ''dhl'' \<and>
   detectCarrier_enh ''AB123456789CD'' = Some ''dhl'' \<and>
   (length d20 = 20 \<and> list_all is_digit d20 \<longrightarrow>
      detectCarrier (''92'' @ d20) = Some ''usps'' \<and> detectCarrier_enh (''92'' @ d20) = Some ''usps'') \<and>
   detectCarrier ''ABC-1234567-1234567'' = Some ''amazon'' \<and>
   detectCarrier_enh ''ABC-1234567-1234567'' = Some ''amazon'' \<and>
   detectCarrier ''not-a-code'' = None \<and>
   detectCarrier_enh ''not-a-code'' = None"
proof -
  have ups: "detectCarrier ''1Z12345678901234AB'' = Some ''ups''"
            "detectCarrier_enh ''1Z12345678901234AB'' = Some ''ups''"
    using detect_ups[of "''12345678901234AB''" "''1Z''"]
    by (simp_all add: is_alnum_def is_digit_def is_upper_def)
  have dhl: "detectCarrier ''AB123456789CD'' = Some ''dhl''"
            "detectCarrier_enh ''AB123456789CD'' = Some ''dhl''"
    using detect_dhl[of "''AB''" "''123456789''" "''CD''"]
    by (simp_all add: is_digit_def is_upper_def)
  have amz: "detectCarrier ''ABC-1234567-1234567'' = Some ''amazon''"
            "detectCarrier_enh ''ABC-1234567-1234567'' = Some ''amazon''"
    using detect_amazon_shape[of "''ABC''" "''1234567''" "''1234567''"]
    by (simp_all add: is_alnum_def is_digit_def is_upper_def)
  have none: "detectCarrier ''not-a-code'' = None" "detectCarrier_enh ''not-a-code'' = None"
    by (simp_all add: detect_len10)
  have usps: "detectCarrier (''92'' @ d20) = Some ''usps'' \<and> detectCarrier_enh (''92'' @ d20) = Some ''usps''"
    if "length d20 = 20" "list_all is_digit d20"
    using detect_usps[of d20 "CHR ''2''"] that by simp
  have fedex: "detectCarrier d12 = Some ''fedex'' \<and> detectCarrier_enh d12 = Some ''fedex''"
    if "length d12 = 12" "list_all is_digit d12"
    using detect_fedex[of d12] that by simp
  have gen: "detectCarrier_enh s = first_match spec_rules s"
    "detectCarrier s =
       (if spec_amazon s \<and> list_ex is_lower s then None else first_match spec_rules s)"
    by (rule detectCarrier_enh_spec, rule detectCarrier_spec)
  from gen ups dhl amz none usps fedex show ?thesis by blast
qed

theorem detectCarrier_first_match_witness:
  "detectCarrier ''123456789012'' = Some ''fedex'' \<and>
   detectCarrier_enh ''123456789012'' = Some ''fedex'' \<and>
   detectCarrier ''9212345678901234567890'' = Some ''usps'' \<and>
   detectCarrier_enh ''9212345678901234567890'' = Some ''usps''"
  using detectCarrier_first_match[of "[]" "''123456789012''" "''12345678901234567890''"]
  by (simp add: is_digit_def)

text \<open>
  An identifier that the Amazon rule of the specification matches and no earlier
  rule does, and that \<^verbatim>\<open>src/server.js\<close> does not detect.
\<close>

theorem detectCarrier_lower_case_counterexample:
  "first_match spec_rules ''a1b-2c3d4e5-f6g7h8i'' = Some ''amazon'' \<and>
   detectCarrier ''a1b-2c3d4e5-f6g7h8i'' = None"
proof -
  have a: "list_all is_alnum (''a1b'' @ ''2c3d4e5'' @ ''f6g7h8i'')"
    by (simp add: is_alnum_def is_digit_def is_lower_def is_upper_def)
  have b: "\<not> list_all (\<lambda>x. is_digit x \<or> is_upper x) (''a1b'' @ ''2c3d4e5'' @ ''f6g7h8i'')"
    by (simp add: is_digit_def is_upper_def)
  have "detectCarrier_enh (''a1b'' @ ''-'' @ ''2c3d4e5'' @ ''-'' @ ''f6g7h8i'') = Some ''amazon''"
    using detect_amazon_shape(2)[of "''a1b''" "''2c3d4e5''" "''f6g7h8i''"] a by simp
  moreover have "detectCarrier (''a1b'' @ ''-'' @ ''2c3d4e5'' @ ''-'' @ ''f6g7h8i'') = None"
    using detect_amazon_shape(1)[of "''a1b''" "''2c3d4e5''" "''f6g7h8i''"] b by simp
  ultimately show ?thesis by (simp add: detectCarrier_enh_spec)
qed

section \<open>The simulated strategy\<close>

lemma generic_activity:
  "activity (getGenericTracking zone rnd now today c tn) =
     [\<lparr>status = (if rnd > 0.5 then ''Delivered'' else ''Out for delivery''), description = None,
       location = ''New York, NY'', timestamp = Iso now, geo = Some (40.71, -74.00)\<rparr>,
      \<lparr>status = ''Arrived at destination hub'', description = None,
       location = ''Chicago, IL'', timestamp = Iso (now - ms_per_day), geo = Some (41.87, -87.62)\<rparr>,
      \<lparr>status = ''Departed from facility'', description = None,
       location = ''Denver, CO'', timestamp = Iso (now - 2 * ms_per_day), geo = Some (39.73, -104.99)\<rparr>,
      \<lparr>status = ''Package received by carrier'', description = None,
       location = ''Los Angeles, CA'', timestamp = Iso (now - 3 * ms_per_day), geo = Some (34.05, -118.24)\<rparr>]"
  by (simp add: getGenericTracking_def Let_def locations_def geoCoords_def ms_per_day_def)

lemma local_day_next: "local_day zone (setDate_next t) = local_day zone t + 1"
proof -
  have "(t + ms_per_day + zone) div ms_per_day = (t + zone) div ms_per_day + 1"
    by (simp add: ms_per_day_def)
  then show ?thesis by (simp add: local_day_def setDate_next_def)
qed

lemma generic_estimate:
  "estimatedDelivery (getGenericTracking zone rnd now today c tn) =
     (if rnd > 0.5 then LocaleDate (local_day zone today) else LocaleDate (local_day zone now + 1))"
  by (simp add: getGenericTracking_def Let_def toLocaleDateString_def local_day_next)

text \<open>
  Claim C1, as the code has it. The simulated strategy builds its four events
  oldest first and returns the list reversed: the activity of the result is in
  descending chronological order, the event timestamped now first and the event
  timestamped three days before now last.
\<close>

theorem generic_activity_newest_first:
  "map timestamp (activity (getGenericTracking zone rnd now today c tn)) =
     [Iso now, Iso (now - ms_per_day), Iso (now - 2 * ms_per_day), Iso (now - 3 * ms_per_day)] \<and>
   chronological_descending (activity (getGenericTracking zone rnd now today c tn))"
  unfolding generic_activity
  by (simp add: chronological_descending_def earlier_eq_def ms_per_day_def)

text \<open>
  The activity is not in ascending order: the first event is the one timestamped
  now and the last the one timestamped three days earlier.
\<close>

theorem generic_activity_not_ascending_counterexample:
  "\<not> chronological_ascending
        (activity (getGenericTracking 0 0 1700000000000 1700000000000 ''ups'' ''1Z12345678901234AB'')) \<and>
   timestamp (hd (activity (getGenericTracking 0 0 1700000000000 1700000000000 ''ups'' ''1Z12345678901234AB'')))
     = Iso 1700000000000 \<and>
   timestamp (last (activity (getGenericTracking 0 0 1700000000000 1700000000000 ''ups'' ''1Z12345678901234AB'')))
     = Iso (1700000000000 - 3 * ms_per_day)"
  unfolding generic_activity
  by (simp add: chronological_ascending_def earlier_eq_def ms_per_day_def)

text \<open>
  Claim C4, as the code has it. The event pushed as fourth stop is the first of the
  returned activity; it is timestamped now in both branches, with status
  Delivered when the delivered branch is taken and Out for delivery otherwise.
  The estimated delivery is the local date of the second clock reading (today)
  when delivered, and the local date of the day after now otherwise.
\<close>

theorem generic_fourth_stop:
  "timestamp (activity (getGenericTracking zone rnd now today c tn) ! 0) = Iso now \<and>
   status (activity (getGenericTracking zone rnd now today c tn) ! 0) =
     (if rnd > 0.5 then ''Delivered'' else ''Out for delivery'') \<and>
   result_status (getGenericTracking zone rnd now today c tn) =
     (if rnd > 0.5 then ''Delivered'' else ''In Transit'') \<and>
   estimatedDelivery (getGenericTracking zone rnd now today c tn) =
     (if rnd > 0.5 then LocaleDate (local_day zone today) else LocaleDate (local_day zone now + 1))"
  unfolding generic_activity generic_estimate
  by (simp add: getGenericTracking_def Let_def)

text \<open>
  In the branch that is not delivered no event is timestamped a day after now:
  the Out for delivery event is timestamped now, and the fourth event of the
  returned activity is the oldest one.
\<close>

theorem generic_fourth_stop_counterexample:
  "status (activity (getGenericTracking 0 0 1700000000000 1700000000000 ''ups'' ''1Z12345678901234AB'') ! 0)
     = ''Out for delivery'' \<and>
   timestamp (activity (getGenericTracking 0 0 1700000000000 1700000000000 ''ups'' ''1Z12345678901234AB'') ! 0)
     = Iso 1700000000000 \<and>
   status (activity (getGenericTracking 0 0 1700000000000 1700000000000 ''ups'' ''1Z12345678901234AB'') ! 3)
     = ''Package received by carrier'' \<and>
   timestamp (activity (getGenericTracking 0 0 1700000000000 1700000000000 ''ups'' ''1Z12345678901234AB'') ! 3)
     = Iso (1700000000000 - 3 * ms_per_day) \<and>
   Iso (1700000000000 + ms_per_day) \<notin> set (map timestamp
     (activity (getGenericTracking 0 0 1700000000000 1700000000000 ''ups'' ''1Z12345678901234AB'')))"
  unfolding generic_activity
  by (simp add: ms_per_day_def)

section \<open>The cache and the tracking request\<close>

lemma client_get_frame:
  "client_get e s url = (r, s1) \<Longrightarrow>
     trackingCache s1 = trackingCache s \<and> strategy_calls s1 = strategy_calls s"
  by (auto simp: client_get_def)

lemma client_post_frame:
  "client_post e s url fd = (r, s1) \<Longrightarrow>
     trackingCache s1 = trackingCache s \<and> strategy_calls s1 = strategy_calls s"
  by (auto simp: client_post_def)

lemma submit_password_frame:
  assumes "submit_password e s pass f = (r, s1)"
  shows "trackingCache s1 = trackingCache s \<and> strategy_calls s1 = strategy_calls s"
  using assms unfolding submit_password_def Let_def
  by (auto split: prod.splits sum.splits if_splits dest!: client_get_frame client_post_frame)

lemma submit_email_frame:
  assumes "submit_email e s user pass f = (r, s1)"
  shows "trackingCache s1 = trackingCache s \<and> strategy_calls s1 = strategy_calls s"
  using assms unfolding submit_email_def Let_def
  by (auto split: prod.splits sum.splits option.splits if_splits
           dest!: client_post_frame submit_password_frame)

lemma login_frame:
  assumes "login e s user pass = (r, s1)"
  shows "trackingCache s1 = trackingCache s \<and> strategy_calls s1 = strategy_calls s"
  using assms unfolding login_def
  by (auto split: prod.splits sum.splits option.splits
           dest!: client_get_frame submit_email_frame)

lemma ensureAmazonSession_frame:
  assumes "ensureAmazonSession e s = (r, s1)"
  shows "trackingCache s1 = trackingCache s \<and> strategy_calls s1 = strategy_calls s"
  using assms unfolding ensureAmazonSession_def
  by (auto split: prod.splits sum.splits if_splits dest!: login_frame)

lemma getAmazonTrackingWithLogin_frame:
  assumes "getAmazonTrackingWithLogin e s orderId = (r, s1)"
  shows "trackingCache s1 = trackingCache s \<and> strategy_calls s1 = strategy_calls s"
  using assms unfolding getAmazonTrackingWithLogin_def
  by (auto split: prod.splits sum.splits dest!: ensureAmazonSession_frame client_get_frame)

lemma fetch_enh_frame:
  assumes "fetch_enh e s c tn = (r, s1)"
  shows "trackingCache s1 = trackingCache s \<and> strategy_calls s1 = strategy_calls s + 1"
  using assms unfolding fetch_enh_def
  by (auto split: if_splits dest!: getAmazonTrackingWithLogin_frame)

lemma fetch_frame:
  assumes "fetch e s c tn = (r, s1)"
  shows "trackingCache s1 = trackingCache s \<and> strategy_calls s1 = strategy_calls s + 1"
  using assms unfolding fetch_def by (auto split: if_splits)

lemma cache_lookup_store:
  "cache_lookup e2 (cache_store e1 s key d) key =
     (if t_check e2 < t_store e1 + CACHE_TTL then Some d else None)"
  by (simp add: cache_lookup_def cache_store_def)

lemma strategy_calls_store: "strategy_calls (cache_store e s key d) = strategy_calls s"
  by (simp add: cache_store_def)

lemma track_enh_hit:
  "tn \<noteq> [] \<Longrightarrow> detectCarrier_enh tn = Some c \<Longrightarrow> cache_lookup e s (c @ '':'' @ tn) = Some d \<Longrightarrow>
     track_enh e s (Some tn) = (Json d, [], s)"
  by (simp add: track_enh_def)

lemma track_enh_miss:
  "tn \<noteq> [] \<Longrightarrow> detectCarrier_enh tn = Some c \<Longrightarrow> cache_lookup e s (c @ '':'' @ tn) = None \<Longrightarrow>
     track_enh e s (Some tn) =
       (case fetch_enh e s c tn of
          (Inr d, s1) \<Rightarrow> (Json d, [(ToAll, tracking_update d)], cache_store e s1 (c @ '':'' @ tn) d)
        | (Inl m, s1) \<Rightarrow> (Status 500 (error_text m), [], s1))"
  by (simp add: track_enh_def split: prod.splits sum.splits)

lemma track_hit:
  "tn \<noteq> [] \<Longrightarrow> detectCarrier tn = Some c \<Longrightarrow> cache_lookup e s (c @ '':'' @ tn) = Some d \<Longrightarrow>
     track e s (Some tn) = (Json d, [], s)"
  by (simp add: track_def)

lemma track_miss:
  "tn \<noteq> [] \<Longrightarrow> detectCarrier tn = Some c \<Longrightarrow> cache_lookup e s (c @ '':'' @ tn) = None \<Longrightarrow>
     track e s (Some tn) =
       (case fetch e s c tn of
          (Inr d, s1) \<Rightarrow> (Json d, [], cache_store e s1 (c @ '':'' @ tn) d)
        | (Inl m, s1) \<Rightarrow> (Status 500 (error_text m), [], s1))"
  by (simp add: track_def split: prod.splits sum.splits)

lemma track_enh_fresh:
  assumes tn: "tn \<noteq> []" and c: "detectCarrier_enh tn = Some c"
    and miss: "cache_lookup e1 s0 (c @ '':'' @ tn) = None"
    and ok: "track_enh e1 s0 (Some tn) = (Json d, ems1, s1)"
  shows "ems1 = [(ToAll, tracking_update d)]"
    and "strategy_calls s1 = strategy_calls s0 + 1"
    and "\<exists>s'. s1 = cache_store e1 s' (c @ '':'' @ tn) d"
proof -
  obtain r s' where f: "fetch_enh e1 s0 c tn = (r, s')" by (cases "fetch_enh e1 s0 c tn")
  from ok f obtain d' where r: "r = Inr d'"
    unfolding track_enh_miss[OF tn c miss] by (cases r) auto
  from ok f r have *: "d' = d" "ems1 = [(ToAll, tracking_update d)]"
    "s1 = cache_store e1 s' (c @ '':'' @ tn) d"
    unfolding track_enh_miss[OF tn c miss] by auto
  from * show "ems1 = [(ToAll, tracking_update d)]" by simp
  from * fetch_enh_frame[OF f] show "strategy_calls s1 = strategy_calls s0 + 1"
    by (simp add: strategy_calls_store)
  from * show "\<exists>s'. s1 = cache_store e1 s' (c @ '':'' @ tn) d" by blast
qed

lemma track_fresh:
  assumes tn: "tn \<noteq> []" and c: "detectCarrier tn = Some c"
    and miss: "cache_lookup e1 s0 (c @ '':'' @ tn) = None"
    and ok: "track e1 s0 (Some tn) = (Json d, ems1, s1)"
  shows "ems1 = []"
    and "strategy_calls s1 = strategy_calls s0 + 1"
    and "\<exists>s'. s1 = cache_store e1 s' (c @ '':'' @ tn) d"
proof -
  obtain r s' where f: "fetch e1 s0 c tn = (r, s')" by (cases "fetch e1 s0 c tn")
  from ok f obtain d' where r: "r = Inr d'"
    unfolding track_miss[OF tn c miss] by (cases r) auto
  from ok f r have *: "d' = d" "ems1 = []"
    "s1 = cache_store e1 s' (c @ '':'' @ tn) d"
    unfolding track_miss[OF tn c miss] by auto
  from * show "ems1 = []" by simp
  from * fetch_frame[OF f] show "strategy_calls s1 = strategy_calls s0 + 1"
    by (simp add: strategy_calls_store)
  from * show "\<exists>s'. s1 = cache_store e1 s' (c @ '':'' @ tn) d" by blast
qed

lemma track_enh_calls_on_miss:
  assumes tn: "tn \<noteq> []" and c: "detectCarrier_enh tn = Some c"
    and miss: "cache_lookup e s (c @ '':'' @ tn) = None"
  shows "strategy_calls (snd (snd (track_enh e s (Some tn)))) = strategy_calls s + 1"
proof -
  obtain r s' where f: "fetch_enh e s c tn = (r, s')" by (cases "fetch_enh e s c tn")
  with fetch_enh_frame[OF f] show ?thesis
    unfolding track_enh_miss[OF tn c miss] by (cases r) (simp_all add: strategy_calls_store)
qed

lemma track_calls_on_miss:
  assumes tn: "tn \<noteq> []" and c: "detectCarrier tn = Some c"
    and miss: "cache_lookup e s (c @ '':'' @ tn) = None"
  shows "strategy_calls (snd (snd (track e s (Some tn)))) = strategy_calls s + 1"
proof -
  obtain r s' where f: "fetch e s c tn = (r, s')" by (cases "fetch e s c tn")
  with fetch_frame[OF f] show ?thesis
    unfolding track_miss[OF tn c miss] by (cases r) (simp_all add: strategy_calls_store)
qed

text \<open>
  Claim C2, as the code has it. Take an identifier whose carrier is detected, a
  first call that finds no live cache entry and whose strategy succeeds. The
  strategy was invoked once; the enhanced version emitted exactly one
  tracking update to all sockets, \<^verbatim>\<open>src/server.js\<close> emitted nothing. A second call
  whose clock reading is before the stored expiry (the time of storing plus ten
  minutes) returns the same result, emits nothing and leaves the state as it is,
  so the strategy is not invoked. A call whose clock reading is at or after the
  expiry invokes the strategy again.
\<close>

theorem track_cache_within_ttl:
  assumes "tn \<noteq> []"
  shows
    "(detectCarrier_enh tn = Some c \<and> cache_lookup e1 s0 (c @ '':'' @ tn) = None \<and>
      track_enh e1 s0 (Some tn) = (Json d, ems1, s1) \<longrightarrow>
        ems1 = [(ToAll, tracking_update d)] \<and>
        strategy_calls s1 = strategy_calls s0 + 1 \<and>
        (t_check e2 < t_store e1 + CACHE_TTL \<longrightarrow> track_enh e2 s1 (Some tn) = (Json d, [], s1)) \<and>
        (t_store e1 + CACHE_TTL \<le> t_check e3 \<longrightarrow>
           strategy_calls (snd (snd (track_enh e3 s1 (Some tn)))) = strategy_calls s1 + 1)) \<and>
     (detectCarrier tn = Some c' \<and> cache_lookup e1 s0 (c' @ '':'' @ tn) = None \<and>
      track e1 s0 (Some tn) = (Json d', ems1', s1') \<longrightarrow>
        ems1' = [] \<and>
        strategy_calls s1' = strategy_calls s0 + 1 \<and>
        (t_check e2 < t_store e1 + CACHE_TTL \<longrightarrow> track e2 s1' (Some tn) = (Json d', [], s1')) \<and>
        (t_store e1 + CACHE_TTL \<le> t_check e3 \<longrightarrow>
           strategy_calls (snd (snd (track e3 s1' (Some tn)))) = strategy_calls s1' + 1))"
proof (intro conjI impI; (elim conjE)?)
  assume c: "detectCarrier_enh tn = Some c" and miss: "cache_lookup e1 s0 (c @ '':'' @ tn) = None"
    and ok: "track_enh e1 s0 (Some tn) = (Json d, ems1, s1)"
  note fr = track_enh_fresh[OF assms c miss ok]
  from fr(3) obtain s' where s1: "s1 = cache_store e1 s' (c @ '':'' @ tn) d" by blast
  show "ems1 = [(ToAll, tracking_update d)]" by (rule fr(1))
  show "strategy_calls s1 = strategy_calls s0 + 1" by (rule fr(2))
  { assume "t_check e2 < t_store e1 + CACHE_TTL"
    then have "cache_lookup e2 s1 (c @ '':'' @ tn) = Some d"
      unfolding s1 by (simp add: cache_lookup_store)
    from track_enh_hit[OF assms c this]
    show "track_enh e2 s1 (Some tn) = (Json d, [], s1)" . }
  { assume "t_store e1 + CACHE_TTL \<le> t_check e3"
    then have "cache_lookup e3 s1 (c @ '':'' @ tn) = None"
      unfolding s1 by (simp add: cache_lookup_store)
    from track_enh_calls_on_miss[OF assms c this]
    show "strategy_calls (snd (snd (track_enh e3 s1 (Some tn)))) = strategy_calls s1 + 1" . }
next
  assume c: "detectCarrier tn = Some c'" and miss: "cache_lookup e1 s0 (c' @ '':'' @ tn) = None"
    and ok: "track e1 s0 (Some tn) = (Json d', ems1', s1')"
  note fr = track_fresh[OF assms c miss ok]
  from fr(3) obtain s' where s1: "s1' = cache_store e1 s' (c' @ '':'' @ tn) d'" by blast
  show "ems1' = []" by (rule fr(1))
  show "strategy_calls s1' = strategy_calls s0 + 1" by (rule fr(2))
  { assume "t_check e2 < t_store e1 + CACHE_TTL"
    then have "cache_lookup e2 s1' (c' @ '':'' @ tn) = Some d'"
      unfolding s1 by (simp add: cache_lookup_store)
    from track_hit[OF assms c this]
    show "track e2 s1' (Some tn) = (Json d', [], s1')" . }
  { assume "t_store e1 + CACHE_TTL \<le> t_check e3"
    then have "cache_lookup e3 s1' (c' @ '':'' @ tn) = None"
      unfolding s1 by (simp add: cache_lookup_store)
    from track_calls_on_miss[OF assms c this]
    show "strategy_calls (snd (snd (track e3 s1' (Some tn)))) = strategy_calls s1' + 1" . }
qed

lemma detect_examples:
  "detectCarrier ''123456789012'' = Some ''fedex''"
  "detectCarrier_enh ''123456789012'' = Some ''fedex''"
  "detectCarrier ''ABC-1234567-1234567'' = Some ''amazon''"
  "detectCarrier_enh ''ABC-1234567-1234567'' = Some ''amazon''"
  using detect_fedex[of "''123456789012''"]
        detect_amazon_shape[of "''ABC''" "''1234567''" "''1234567''"]
  by (simp_all add: is_digit_def is_upper_def is_alnum_def)

lemma cache_lookup_fresh: "cache_lookup e fresh_server key = None"
  by (simp add: cache_lookup_def fresh_server_def)

lemma track_enh_fedex_first:
  "track_enh (plain_env 1000 1002) fresh_server (Some ''123456789012'') =
     (Json (getGenericTracking 0 0.7 1000 1000 ''fedex'' ''123456789012''),
      [(ToAll, tracking_update (getGenericTracking 0 0.7 1000 1000 ''fedex'' ''123456789012''))],
      cache_store (plain_env 1000 1002) (fresh_server\<lparr>strategy_calls := 1\<rparr>) ''fedex:123456789012''
        (getGenericTracking 0 0.7 1000 1000 ''fedex'' ''123456789012''))"
  unfolding track_enh_miss[OF _ detect_examples(2) cache_lookup_fresh, simplified]
  by (simp add: fetch_enh_def plain_env_def fresh_server_def)

lemma track_fedex_first:
  "track (plain_env 1000 1002) fresh_server (Some ''123456789012'') =
     (Json (getGenericTracking 0 0.7 1000 1000 ''fedex'' ''123456789012''),
      [],
      cache_store (plain_env 1000 1002) (fresh_server\<lparr>strategy_calls := 1\<rparr>) ''fedex:123456789012''
        (getGenericTracking 0 0.7 1000 1000 ''fedex'' ''123456789012''))"
  unfolding track_miss[OF _ detect_examples(1) cache_lookup_fresh, simplified]
  by (simp add: fetch_def plain_env_def fresh_server_def)

theorem track_cache_within_ttl_witness:
  "track_enh (plain_env 500000 500000)
     (cache_store (plain_env 1000 1002) (fresh_server\<lparr>strategy_calls := 1\<rparr>) ''fedex:123456789012''
        (getGenericTracking 0 0.7 1000 1000 ''fedex'' ''123456789012''))
     (Some ''123456789012'') =
     (Json (getGenericTracking 0 0.7 1000 1000 ''fedex'' ''123456789012''), [],
      cache_store (plain_env 1000 1002) (fresh_server\<lparr>strategy_calls := 1\<rparr>) ''fedex:123456789012''
        (getGenericTracking 0 0.7 1000 1000 ''fedex'' ''123456789012'')) \<and>
   strategy_calls (snd (snd (track_enh (plain_env 601002 601002)
     (cache_store (plain_env 1000 1002) (fresh_server\<lparr>strategy_calls := 1\<rparr>) ''fedex:123456789012''
        (getGenericTracking 0 0.7 1000 1000 ''fedex'' ''123456789012''))
     (Some ''123456789012'')))) = 2 \<and>
   track (plain_env 500000 500000)
     (cache_store (plain_env 1000 1002) (fresh_server\<lparr>strategy_calls := 1\<rparr>) ''fedex:123456789012''
        (getGenericTracking 0 0.7 1000 1000 ''fedex'' ''123456789012''))
     (Some ''123456789012'') =
     (Json (getGenericTracking 0 0.7 1000 1000 ''fedex'' ''123456789012''), [],
      cache_store (plain_env 1000 1002) (fresh_server\<lparr>strategy_calls := 1\<rparr>) ''fedex:123456789012''
        (getGenericTracking 0 0.7 1000 1000 ''fedex'' ''123456789012'')) \<and>
   strategy_calls (snd (snd (track (plain_env 601002 601002)
     (cache_store (plain_env 1000 1002) (fresh_server\<lparr>strategy_calls := 1\<rparr>) ''fedex:123456789012''
        (getGenericTracking 0 0.7 1000 1000 ''fedex'' ''123456789012''))
     (Some ''123456789012'')))) = 2"
proof -
  have t: "t_check (plain_env 500000 500000) < t_store (plain_env 1000 1002) + CACHE_TTL"
    "t_store (plain_env 1000 1002) + CACHE_TTL \<le> t_check (plain_env 601002 601002)"
    by (simp_all add: plain_env_def CACHE_TTL_def)
  have n: "''123456789012'' \<noteq> []" by simp
  show ?thesis
    using track_cache_within_ttl[OF n,
        where c = "''fedex''" and c' = "''fedex''" and ?e1.0 = "plain_env 1000 1002"
          and ?s0.0 = fresh_server and ?e2.0 = "plain_env 500000 500000"
          and ?e3.0 = "plain_env 601002 601002"
          and d = "getGenericTracking 0 0.7 1000 1000 ''fedex'' ''123456789012''"
          and d' = "getGenericTracking 0 0.7 1000 1000 ''fedex'' ''123456789012''"
          and ?ems1.0 = "[(ToAll, tracking_update (getGenericTracking 0 0.7 1000 1000 ''fedex'' ''123456789012''))]"
          and ems1' = "[]"
          and ?s1.0 = "cache_store (plain_env 1000 1002) (fresh_server\<lparr>strategy_calls := 1\<rparr>)
               ''fedex:123456789012'' (getGenericTracking 0 0.7 1000 1000 ''fedex'' ''123456789012'')"
          and s1' = "cache_store (plain_env 1000 1002) (fresh_server\<lparr>strategy_calls := 1\<rparr>)
               ''fedex:123456789012'' (getGenericTracking 0 0.7 1000 1000 ''fedex'' ''123456789012'')"]
      t detect_examples(1,2) track_enh_fedex_first track_fedex_first
      cache_lookup_fresh[of "plain_env 1000 1002" "''fedex:123456789012''"]
    by (simp add: strategy_calls_store)
qed

text \<open>
  Two calls for an Amazon identifier while the credentials are not configured:
  the carrier is detected, both calls invoke the strategy and fail, and nothing is
  emitted. Two calls for a FedEx identifier in \<^verbatim>\<open>src/server.js\<close>: the same result
  twice, one invocation, and no emission at all.
\<close>

theorem track_twice_counterexample:
  "detectCarrier_enh ''ABC-1234567-1234567'' = Some ''amazon'' \<and>
   track_enh (plain_env 1000 1000) fresh_server (Some ''ABC-1234567-1234567'') =
     (Status 500 ''Amazon credentials (AMZ_USER, AMZ_PASS) not configured in .env file.'', [],
      fresh_server\<lparr>strategy_calls := 1\<rparr>) \<and>
   track_enh (plain_env 2000 2000) (fresh_server\<lparr>strategy_calls := 1\<rparr>) (Some ''ABC-1234567-1234567'') =
     (Status 500 ''Amazon credentials (AMZ_USER, AMZ_PASS) not configured in .env file.'', [],
      fresh_server\<lparr>strategy_calls := 2\<rparr>) \<and>
   track (plain_env 1000 1002) fresh_server (Some ''123456789012'') =
     (Json (getGenericTracking 0 0.7 1000 1000 ''fedex'' ''123456789012''), [],
      cache_store (plain_env 1000 1002) (fresh_server\<lparr>strategy_calls := 1\<rparr>) ''fedex:123456789012''
        (getGenericTracking 0 0.7 1000 1000 ''fedex'' ''123456789012'')) \<and>
   track (plain_env 2000 2000)
      (cache_store (plain_env 1000 1002) (fresh_server\<lparr>strategy_calls := 1\<rparr>) ''fedex:123456789012''
        (getGenericTracking 0 0.7 1000 1000 ''fedex'' ''123456789012''))
      (Some ''123456789012'') =
     (Json (getGenericTracking 0 0.7 1000 1000 ''fedex'' ''123456789012''), [],
      cache_store (plain_env 1000 1002) (fresh_server\<lparr>strategy_calls := 1\<rparr>) ''fedex:123456789012''
        (getGenericTracking 0 0.7 1000 1000 ''fedex'' ''123456789012''))"
proof -
  have a: "track_enh (plain_env t t) (fresh_server\<lparr>strategy_calls := n\<rparr>) (Some ''ABC-1234567-1234567'') =
     (Status 500 ''Amazon credentials (AMZ_USER, AMZ_PASS) not configured in .env file.'', [],
      fresh_server\<lparr>strategy_calls := n + 1\<rparr>)" for t n
  proof -
    have "cache_lookup (plain_env t t) (fresh_server\<lparr>strategy_calls := n\<rparr>) ''amazon:ABC-1234567-1234567'' = None"
      by (simp add: cache_lookup_def fresh_server_def)
    from track_enh_miss[OF _ detect_examples(4), simplified, OF this] show ?thesis
      by (simp add: fetch_enh_def plain_env_def fresh_server_def getAmazonTrackingWithLogin_def
            ensureAmazonSession_def falsy_def error_text_def)
  qed
  have b: "cache_lookup (plain_env 2000 2000)
      (cache_store (plain_env 1000 1002) (fresh_server\<lparr>strategy_calls := 1\<rparr>) ''fedex:123456789012''
        (getGenericTracking 0 0.7 1000 1000 ''fedex'' ''123456789012'')) ''fedex:123456789012''
      = Some (getGenericTracking 0 0.7 1000 1000 ''fedex'' ''123456789012'')"
    by (simp add: cache_lookup_store plain_env_def CACHE_TTL_def)
  have c: "fresh_server\<lparr>strategy_calls := 0\<rparr> = fresh_server" by (simp add: fresh_server_def)
  show ?thesis
    using a[of 1000 0] a[of 2000 1] track_hit[OF _ detect_examples(1), of _ _ "getGenericTracking 0 0.7 1000 1000 ''fedex'' ''123456789012''"] b
    by (simp add: detect_examples track_fedex_first c)
qed

text \<open>
  Claim C6, as the code has it. Take an identifier whose carrier is detected and
  that has no live cache entry. If the dispatched strategy fails with message
  \<open>m\<close>, the response has status 500 and carries \<open>m\<close> when \<open>m\<close> is not empty and the
  text \<^verbatim>\<open>An error occurred while tracking.\<close> when it is; nothing is emitted, and the
  cache is as it was before the request.
\<close>

theorem track_strategy_failure:
  assumes "tn \<noteq> []"
  shows
    "(detectCarrier_enh tn = Some c \<and> cache_lookup e s (c @ '':'' @ tn) = None \<and>
      fetch_enh e s c tn = (Inl m, s1) \<longrightarrow>
        track_enh e s (Some tn) =
          (Status 500 (if m = [] then ''An error occurred while tracking.'' else m), [], s1) \<and>
        trackingCache s1 = trackingCache s) \<and>
     (detectCarrier tn = Some c' \<and> cache_lookup e s (c' @ '':'' @ tn) = None \<and>
      fetch e s c' tn = (Inl m', s1') \<longrightarrow>
        track e s (Some tn) =
          (Status 500 (if m' = [] then ''An error occurred while tracking.'' else m'), [], s1') \<and>
        trackingCache s1' = trackingCache s)"
proof (intro conjI impI; (elim conjE)?)
  assume c: "detectCarrier_enh tn = Some c" and miss: "cache_lookup e s (c @ '':'' @ tn) = None"
    and f: "fetch_enh e s c tn = (Inl m, s1)"
  show "track_enh e s (Some tn) =
          (Status 500 (if m = [] then ''An error occurred while tracking.'' else m), [], s1)"
    unfolding track_enh_miss[OF assms c miss] f by (simp add: error_text_def)
  from fetch_enh_frame[OF f] show "trackingCache s1 = trackingCache s" by simp
next
  assume c: "detectCarrier tn = Some c'" and miss: "cache_lookup e s (c' @ '':'' @ tn) = None"
    and f: "fetch e s c' tn = (Inl m', s1')"
  show "track e s (Some tn) =
          (Status 500 (if m' = [] then ''An error occurred while tracking.'' else m'), [], s1')"
    unfolding track_miss[OF assms c miss] f by (simp add: error_text_def)
  from fetch_frame[OF f] show "trackingCache s1' = trackingCache s" by simp
qed

lemma fetch_amazon_unconfigured:
  "fetch_enh (plain_env 1000 1000) fresh_server ''amazon'' ''ABC-1234567-1234567'' =
     (Inl ''Amazon credentials (AMZ_USER, AMZ_PASS) not configured in .env file.'',
      fresh_server\<lparr>strategy_calls := 1\<rparr>)"
  "fetch (plain_env 1000 1000) fresh_server ''amazon'' ''ABC-1234567-1234567'' =
     (Inl ''Server is not configured for Amazon tracking.'',
      fresh_server\<lparr>strategy_calls := 1\<rparr>)"
  by (simp_all add: fetch_enh_def fetch_def plain_env_def fresh_server_def
        getAmazonTrackingWithLogin_def ensureAmazonSession_def getAmazonTracking_def falsy_def)

theorem track_strategy_failure_witness:
  "track_enh (plain_env 1000 1000) fresh_server (Some ''ABC-1234567-1234567'') =
     (Status 500 ''Amazon credentials (AMZ_USER, AMZ_PASS) not configured in .env file.'', [],
      fresh_server\<lparr>strategy_calls := 1\<rparr>) \<and>
   track (plain_env 1000 1000) fresh_server (Some ''ABC-1234567-1234567'') =
     (Status 500 ''Server is not configured for Amazon tracking.'', [],
      fresh_server\<lparr>strategy_calls := 1\<rparr>) \<and>
   trackingCache (fresh_server\<lparr>strategy_calls := 1\<rparr>) = trackingCache fresh_server"
proof -
  have n: "''ABC-1234567-1234567'' \<noteq> []" by simp
  show ?thesis
    using track_strategy_failure[OF n, where c = "''amazon''" and c' = "''amazon''"
        and e = "plain_env 1000 1000" and s = fresh_server
        and m = "''Amazon credentials (AMZ_USER, AMZ_PASS) not configured in .env file.''"
        and m' = "''Server is not configured for Amazon tracking.''"
        and ?s1.0 = "fresh_server\<lparr>strategy_calls := 1\<rparr>"
        and s1' = "fresh_server\<lparr>strategy_calls := 1\<rparr>"]
      detect_examples(3,4) fetch_amazon_unconfigured
      cache_lookup_fresh[of "plain_env 1000 1000" "''amazon:ABC-1234567-1234567''"]
    by simp
qed

text \<open>
  A strategy failure whose message is empty: the session is active and the request
  for the order page fails without a message. The response does not carry the
  empty message but the fixed text.
\<close>

theorem track_empty_message_counterexample:
  "fetch_enh no_message_env (fresh_server\<lparr>amazonSessionActive := True\<rparr>) ''amazon''
       ''ABC-1234567-1234567'' =
     (Inl [],
      fresh_server\<lparr>amazonSessionActive := True,
        requests := [GET (tracking_url ''ABC-1234567-1234567'')], strategy_calls := 1\<rparr>) \<and>
   track_enh no_message_env (fresh_server\<lparr>amazonSessionActive := True\<rparr>)
       (Some ''ABC-1234567-1234567'') =
     (Status 500 ''An error occurred while tracking.'', [],
      fresh_server\<lparr>amazonSessionActive := True,
        requests := [GET (tracking_url ''ABC-1234567-1234567'')], strategy_calls := 1\<rparr>)"
proof -
  have f: "fetch_enh no_message_env (fresh_server\<lparr>amazonSessionActive := True\<rparr>) ''amazon''
       ''ABC-1234567-1234567'' =
     (Inl [],
      fresh_server\<lparr>amazonSessionActive := True,
        requests := [GET (tracking_url ''ABC-1234567-1234567'')], strategy_calls := 1\<rparr>)"
    by (simp add: fetch_enh_def no_message_env_def fresh_server_def
        getAmazonTrackingWithLogin_def ensureAmazonSession_def client_get_def)
  have "cache_lookup no_message_env (fresh_server\<lparr>amazonSessionActive := True\<rparr>)
          ''amazon:ABC-1234567-1234567'' = None"
    by (simp add: cache_lookup_def fresh_server_def)
  from track_enh_miss[OF _ detect_examples(4), simplified, OF this] f show ?thesis
    by (simp add: error_text_def)
qed

section \<open>The Amazon strategy\<close>

lemma parse_order_page_no_events:
  assumes "select_events (eventNodes p) eventSelectors [] = []"
  shows "activity (parse_order_page e p orderId) =
     [\<lparr>status = (case statusElement p of Some t \<Rightarrow> trim t | None \<Rightarrow> ''Status not found''),
       description = Some (''Current status: '' @
          (case statusElement p of Some t \<Rightarrow> trim t | None \<Rightarrow> ''Status not found'')),
       location = [], timestamp = Iso (t_event e), geo = None\<rparr>]"
  using assms by (simp add: parse_order_page_def Let_def)

text \<open>
  Claim C7, as the code has it. When the session is available, the order page is
  fetched and the parser finds no tracking event, the strategy returns a result
  whose activity is one synthesized event. Its status is the trimmed text of the
  status element when the page has one, and the text \<^verbatim>\<open>Status not found\<close> when it
  has none; the strategy does not fail in either case.
\<close>

theorem amazon_zero_events:
  assumes "ensureAmazonSession e s = (Inr b, s1)"
    and "http e (length (requests s1)) = Inr p"
    and "select_events (eventNodes p) eventSelectors [] = []"
  shows "getAmazonTrackingWithLogin e s orderId =
           (Inr (parse_order_page e p orderId),
            s1\<lparr>requests := requests s1 @ [GET (tracking_url orderId)]\<rparr>) \<and>
         activity (parse_order_page e p orderId) =
           [\<lparr>status = (case statusElement p of Some t \<Rightarrow> trim t | None \<Rightarrow> ''Status not found''),
             description = Some (''Current status: '' @
               (case statusElement p of Some t \<Rightarrow> trim t | None \<Rightarrow> ''Status not found'')),
             location = [], timestamp = Iso (t_event e), geo = None\<rparr>]"
  using assms(1,2) parse_order_page_no_events[OF assms(3)]
  by (simp add: getAmazonTrackingWithLogin_def client_get_def)

lemma trim_example: "trim '' Arriving tomorrow '' = ''Arriving tomorrow''"
  by (simp add: trim_def is_space_def)

theorem amazon_zero_events_witness:
  "getAmazonTrackingWithLogin (order_env status_page) (fresh_server\<lparr>amazonSessionActive := True\<rparr>)
       ''ABC-1234567-1234567'' =
     (Inr (parse_order_page (order_env status_page) status_page ''ABC-1234567-1234567''),
      fresh_server\<lparr>amazonSessionActive := True,
                    requests := [GET (tracking_url ''ABC-1234567-1234567'')]\<rparr>) \<and>
   activity (parse_order_page (order_env status_page) status_page ''ABC-1234567-1234567'') =
     [\<lparr>status = ''Arriving tomorrow'', description = Some ''Current status: Arriving tomorrow'',
       location = [], timestamp = Iso 1000, geo = None\<rparr>]"
proof -
  have a: "ensureAmazonSession (order_env status_page) (fresh_server\<lparr>amazonSessionActive := True\<rparr>)
             = (Inr True, fresh_server\<lparr>amazonSessionActive := True\<rparr>)"
    by (simp add: ensureAmazonSession_def)
  have b: "http (order_env status_page) (length (requests (fresh_server\<lparr>amazonSessionActive := True\<rparr>)))
             = Inr status_page"
    by (simp add: order_env_def configured_env_def)
  have c: "select_events (eventNodes status_page) eventSelectors [] = []"
    by (simp add: status_page_def eventSelectors_def)
  show ?thesis
    using amazon_zero_events[OF a b c, of "''ABC-1234567-1234567''"]
    by (simp add: status_page_def trim_example order_env_def configured_env_def fresh_server_def)
qed

text \<open>
  An order page without tracking events and without a status element: the
  strategy does not fail, and the event it returns carries a fixed text that is
  not on the page.
\<close>

theorem amazon_no_status_counterexample:
  "select_events (eventNodes bare_page) eventSelectors [] = [] \<and>
   statusElement bare_page = None \<and>
   fst (getAmazonTrackingWithLogin (order_env bare_page) (fresh_server\<lparr>amazonSessionActive := True\<rparr>)
          ''ABC-1234567-1234567'') =
     Inr \<lparr>carrier = ''Amazon Logistics'', trackingNumber = ''ABC-1234567-1234567'',
          result_status = ''Status not found'', estimatedDelivery = PageText ''N/A'',
          activity = [\<lparr>status = ''Status not found'',
                       description = Some ''Current status: Status not found'',
                       location = [], timestamp = Iso 1000, geo = None\<rparr>]\<rparr>"
  by (simp add: getAmazonTrackingWithLogin_def ensureAmazonSession_def client_get_def
        order_env_def configured_env_def bare_page_def eventSelectors_def fresh_server_def
        parse_order_page_def Let_def)

lemma client_get_requests:
  "client_get e s url = (r, s1) \<Longrightarrow> requests s1 = requests s @ [GET url]"
  by (auto simp: client_get_def)

lemma client_post_requests:
  "client_post e s url fd = (r, s1) \<Longrightarrow> requests s1 = requests s @ [POST url fd]"
  by (auto simp: client_post_def)

lemma submit_password_requests:
  assumes "submit_password e s pass f = (r, s1)"
  shows "\<exists>rest. requests s1 = requests s @ rest"
  using assms unfolding submit_password_def Let_def
  by (auto split: prod.splits sum.splits if_splits
           dest!: client_get_requests client_post_requests)

lemma submit_email_requests:
  assumes "submit_email e s user pass f = (r, s1)"
  shows "\<exists>rest. requests s1 = requests s @ rest"
  using assms unfolding submit_email_def Let_def
  by (auto split: prod.splits sum.splits option.splits if_splits
           dest!: client_post_requests submit_password_requests)

lemma login_requests:
  assumes "login e s user pass = (r, s1)"
  shows "\<exists>rest. requests s1 = requests s @ GET signin_url # rest"
  using assms unfolding login_def
  by (auto split: prod.splits sum.splits option.splits
           dest!: client_get_requests submit_email_requests)

lemma ensureAmazonSession_login_requests:
  assumes "ensureAmazonSession e s = (r, s1)" "\<not> amazonSessionActive s"
    "\<not> falsy (AMZ_USER e)" "\<not> falsy (AMZ_PASS e)"
  shows "\<exists>rest. requests s1 = requests s @ GET signin_url # rest"
  using assms unfolding ensureAmazonSession_def
  by (auto split: prod.splits sum.splits dest!: login_requests)

lemma getAmazonTrackingWithLogin_login_requests:
  assumes "\<not> amazonSessionActive s" "\<not> falsy (AMZ_USER e)" "\<not> falsy (AMZ_PASS e)"
  shows "\<exists>rest. requests (snd (getAmazonTrackingWithLogin e s orderId))
           = requests s @ GET signin_url # rest"
proof -
  obtain r s1 where en: "ensureAmazonSession e s = (r, s1)" by (cases "ensureAmazonSession e s")
  from ensureAmazonSession_login_requests[OF en assms] obtain rest
    where rest: "requests s1 = requests s @ GET signin_url # rest" by blast
  show ?thesis
  proof (cases r)
    case (Inl m)
    with en rest show ?thesis by (simp add: getAmazonTrackingWithLogin_def)
  next
    case (Inr b)
    obtain r2 s2 where g: "client_get e s1 (tracking_url orderId) = (r2, s2)"
      by (cases "client_get e s1 (tracking_url orderId)")
    from client_get_requests[OF g] rest
    have "requests s2 = requests s @ GET signin_url # (rest @ [GET (tracking_url orderId)])" by simp
    with en Inr g show ?thesis
      by (cases r2) (auto simp: getAmazonTrackingWithLogin_def)
  qed
qed

lemma ensureAmazonSession_failed_inactive:
  assumes "ensureAmazonSession e s = (Inl m, s1)"
  shows "\<not> amazonSessionActive s1"
  using assms unfolding ensureAmazonSession_def
  by (auto split: prod.splits sum.splits if_splits)

lemma challenge_messages_differ: "mfa_message \<noteq> captcha_message"
  by (simp add: mfa_message_def captcha_message_def)

lemma includes_mfa:
  \<open>\<not> str_includes ''<input id="auth-mfa-otpcode">'' ''Enter your password''\<close>
  \<open>str_includes ''<input id="auth-mfa-otpcode">'' ''auth-mfa-otpcode''\<close>
  by simp_all

lemma mfa_run:
  "ensureAmazonSession (challenge_env mfa_page) fresh_server =
     (Inl (''Amazon login process failed: '' @ mfa_message),
      fresh_server\<lparr>requests := [GET signin_url,
         POST signin_url [(''appActionToken'', ''tok''), (''email'', ''user@example.com''),
                          (''create'', ''0'')]]\<rparr>)"
  by (simp add: ensureAmazonSession_def challenge_env_def configured_env_def fresh_server_def
        falsy_def login_def client_get_def client_post_def signin_page_def submit_email_def
        extractHiddenInputs_def mfa_page_def includes_mfa)

lemma includes_captcha:
  \<open>\<not> str_includes ''<form action="/errors/validateCaptcha">'' ''Enter your password''\<close>
  \<open>\<not> str_includes ''<form action="/errors/validateCaptcha">'' ''auth-mfa-otpcode''\<close>
  \<open>str_includes ''<form action="/errors/validateCaptcha">'' ''/errors/validateCaptcha''\<close>
  by simp_all

lemma submit_email_challenge:
  assumes "http e (length (requests s)) = Inr p" "signIn p = None"
    and "\<not> str_includes (response_data p) ''Enter your password''"
  shows "submit_email e s user pass f =
     (Inl (if str_includes (response_data p) ''auth-mfa-otpcode'' then mfa_message
            else if str_includes (response_data p) ''/errors/validateCaptcha''
            then captcha_message
            else ''Amazon login flow changed or encountered an unexpected page after email submission.''),
      s\<lparr>requests := requests s @
          [POST signin_url
             (assign ''create'' ''0'' (assign ''email'' user (extractHiddenInputs f)))]\<rparr>)"
  using assms by (auto simp: submit_email_def client_post_def Let_def)

lemma login_challenge:
  assumes "(http e (length (requests s)) = Inr p0 \<and> signIn p0 = Some f \<and>
            k = Suc (length (requests s))) \<or>
           (http e (length (requests s)) = Inr p0 \<and> signIn p0 = None \<and>
            http e (Suc (length (requests s))) = Inr p1 \<and> signIn p1 = Some f \<and>
            k = Suc (Suc (length (requests s))))"
    and "http e k = Inr p" "signIn p = None"
    and "\<not> str_includes (response_data p) ''Enter your password''"
  shows "\<exists>s'. login e s user pass =
           (Inl (if str_includes (response_data p) ''auth-mfa-otpcode'' then mfa_message
            else if str_includes (response_data p) ''/errors/validateCaptcha''
            then captcha_message
            else ''Amazon login flow changed or encountered an unexpected page after email submission.''), s') \<and>
         length (requests s') = Suc k"
  using assms(1)
proof (elim disjE conjE)
  assume a: "http e (length (requests s)) = Inr p0" "signIn p0 = Some f"
    "k = Suc (length (requests s))"
  let ?s1 = "s\<lparr>requests := requests s @ [GET signin_url]\<rparr>"
  have k: "http e (length (requests ?s1)) = Inr p" using a(3) assms(2) by simp
  show ?thesis
    using a submit_email_challenge[OF k assms(3,4), of user pass f]
    by (simp add: login_def client_get_def)
next
  assume a: "http e (length (requests s)) = Inr p0" "signIn p0 = None"
    "http e (Suc (length (requests s))) = Inr p1" "signIn p1 = Some f"
    "k = Suc (Suc (length (requests s)))"
  let ?s2 = "s\<lparr>requests := requests s @ [GET signin_url, GET order_history_url]\<rparr>"
  have k: "http e (length (requests ?s2)) = Inr p" using a(5) assms(2) by simp
  show ?thesis
    using a submit_email_challenge[OF k assms(3,4), of user pass f]
    by (simp add: login_def client_get_def)
qed

lemma ensureAmazonSession_challenge:
  assumes "\<not> amazonSessionActive s" "\<not> falsy (AMZ_USER e)" "\<not> falsy (AMZ_PASS e)"
    and "(http e (length (requests s)) = Inr p0 \<and> signIn p0 = Some f \<and>
            k = Suc (length (requests s))) \<or>
           (http e (length (requests s)) = Inr p0 \<and> signIn p0 = None \<and>
            http e (Suc (length (requests s))) = Inr p1 \<and> signIn p1 = Some f \<and>
            k = Suc (Suc (length (requests s))))"
    and "http e k = Inr p" "signIn p = None"
    and "\<not> str_includes (response_data p) ''Enter your password''"
  shows "\<exists>s1. ensureAmazonSession e s =
           (Inl (''Amazon login process failed: '' @
                 (if str_includes (response_data p) ''auth-mfa-otpcode'' then mfa_message
            else if str_includes (response_data p) ''/errors/validateCaptcha''
            then captcha_message
            else ''Amazon login flow changed or encountered an unexpected page after email submission.'')), s1) \<and>
         \<not> amazonSessionActive s1 \<and> length (requests s1) = Suc k"
proof -
  from login_challenge[OF assms(4-7)]
  obtain s' where l: "login e s (case AMZ_USER e of Some u \<Rightarrow> u | None \<Rightarrow> [])
                        (case AMZ_PASS e of Some p \<Rightarrow> p | None \<Rightarrow> []) =
           (Inl (if str_includes (response_data p) ''auth-mfa-otpcode'' then mfa_message
            else if str_includes (response_data p) ''/errors/validateCaptcha''
            then captcha_message
            else ''Amazon login flow changed or encountered an unexpected page after email submission.''), s')"
    and n: "length (requests s') = Suc k" by blast
  from assms(1-3) l n show ?thesis
    by (simp add: ensureAmazonSession_def)
qed

text \<open>
  Claim C8, as the code has it. Take a login (session flag false, credentials
  configured) that finds the sign-in form on the sign-in page or, failing that, on
  the order history, and whose e-mail submission is answered by a page without
  sign-in form that does not include \<^verbatim>\<open>Enter your password\<close>. Then
  \<^verbatim>\<open>ensureAmazonSession\<close> and the fetch fail with the prefix
  \<^verbatim>\<open>Amazon login process failed: \<close> followed by the message of the second-factor
  challenge when the page includes \<^verbatim>\<open>auth-mfa-otpcode\<close>, else by the message of the
  captcha challenge when it includes \<^verbatim>\<open>/errors/validateCaptcha\<close>, else by the
  message of an unexpected page; the three messages are different. No further
  request is sent and the session flag is left false. The state is not terminal:
  the session has only the flag, and the next fetch made with configured
  credentials starts a new login, its first request being for the sign-in page.
\<close>

theorem amazon_challenge_not_terminal:
  assumes "\<not> amazonSessionActive s" "\<not> falsy (AMZ_USER e)" "\<not> falsy (AMZ_PASS e)"
    and "(http e (length (requests s)) = Inr p0 \<and> signIn p0 = Some f \<and>
            k = Suc (length (requests s))) \<or>
           (http e (length (requests s)) = Inr p0 \<and> signIn p0 = None \<and>
            http e (Suc (length (requests s))) = Inr p1 \<and> signIn p1 = Some f \<and>
            k = Suc (Suc (length (requests s))))"
    and "http e k = Inr p" "signIn p = None"
    and "\<not> str_includes (response_data p) ''Enter your password''"
    and "\<not> falsy (AMZ_USER e2)" "\<not> falsy (AMZ_PASS e2)"
  shows
    "fst (ensureAmazonSession e s) =
       Inl (''Amazon login process failed: '' @
            (if str_includes (response_data p) ''auth-mfa-otpcode'' then mfa_message
            else if str_includes (response_data p) ''/errors/validateCaptcha''
            then captcha_message
            else ''Amazon login flow changed or encountered an unexpected page after email submission.'')) \<and>
     getAmazonTrackingWithLogin e s orderId =
       (Inl (''Amazon login process failed: '' @
            (if str_includes (response_data p) ''auth-mfa-otpcode'' then mfa_message
            else if str_includes (response_data p) ''/errors/validateCaptcha''
            then captcha_message
            else ''Amazon login flow changed or encountered an unexpected page after email submission.'')),
        snd (ensureAmazonSession e s)) \<and>
     mfa_message \<noteq> captcha_message \<and>
     mfa_message \<noteq>
       ''Amazon login flow changed or encountered an unexpected page after email submission.'' \<and>
     captcha_message \<noteq>
       ''Amazon login flow changed or encountered an unexpected page after email submission.'' \<and>
     \<not> amazonSessionActive (snd (ensureAmazonSession e s)) \<and>
     length (requests (snd (ensureAmazonSession e s))) = Suc k \<and>
     take (Suc (Suc k))
       (requests (snd (getAmazonTrackingWithLogin e2 (snd (ensureAmazonSession e s)) orderId2)))
       = requests (snd (ensureAmazonSession e s)) @ [GET signin_url]"
proof -
  from ensureAmazonSession_challenge[OF assms(1-7)]
  obtain s1 where en: "ensureAmazonSession e s =
           (Inl (''Amazon login process failed: '' @
                 (if str_includes (response_data p) ''auth-mfa-otpcode'' then mfa_message
            else if str_includes (response_data p) ''/errors/validateCaptcha''
            then captcha_message
            else ''Amazon login flow changed or encountered an unexpected page after email submission.'')), s1)"
    and na: "\<not> amazonSessionActive s1" and n: "length (requests s1) = Suc k" by blast
  from getAmazonTrackingWithLogin_login_requests[OF na assms(8,9), of orderId2]
  obtain rest where "requests (snd (getAmazonTrackingWithLogin e2 s1 orderId2))
           = requests s1 @ GET signin_url # rest" by blast
  with n have t: "take (Suc (Suc k)) (requests (snd (getAmazonTrackingWithLogin e2 s1 orderId2)))
           = requests s1 @ [GET signin_url]" by simp
  have g: "getAmazonTrackingWithLogin e s orderId =
       (Inl (''Amazon login process failed: '' @
            (if str_includes (response_data p) ''auth-mfa-otpcode'' then mfa_message
            else if str_includes (response_data p) ''/errors/validateCaptcha''
            then captcha_message
            else ''Amazon login flow changed or encountered an unexpected page after email submission.'')), s1)"
    by (simp add: getAmazonTrackingWithLogin_def en)
  have d: "mfa_message \<noteq>
       ''Amazon login flow changed or encountered an unexpected page after email submission.''"
    "captcha_message \<noteq>
       ''Amazon login flow changed or encountered an unexpected page after email submission.''"
    by (simp_all add: mfa_message_def captcha_message_def)
  from en na n t g challenge_messages_differ d show ?thesis by simp
qed

theorem amazon_challenge_not_terminal_witness:
  "fst (ensureAmazonSession (challenge_env mfa_page) fresh_server) =
     Inl (''Amazon login process failed: '' @ mfa_message) \<and>
   \<not> amazonSessionActive (snd (ensureAmazonSession (challenge_env mfa_page) fresh_server)) \<and>
   length (requests (snd (ensureAmazonSession (challenge_env mfa_page) fresh_server))) = 2 \<and>
   take 3 (requests (snd (getAmazonTrackingWithLogin (login_env status_page)
      (snd (ensureAmazonSession (challenge_env mfa_page) fresh_server)) ''ABC-1234567-1234567'')))
     = requests (snd (ensureAmazonSession (challenge_env mfa_page) fresh_server)) @ [GET signin_url] \<and>
   fst (ensureAmazonSession (detour_env captcha_page) fresh_server) =
     Inl (''Amazon login process failed: '' @ captcha_message) \<and>
   \<not> amazonSessionActive (snd (ensureAmazonSession (detour_env captcha_page) fresh_server)) \<and>
   length (requests (snd (ensureAmazonSession (detour_env captcha_page) fresh_server))) = 3 \<and>
   fst (ensureAmazonSession (challenge_env bare_page) fresh_server) =
     Inl (''Amazon login process failed: '' @
          ''Amazon login flow changed or encountered an unexpected page after email submission.'')"
proof -
  have s: "\<not> amazonSessionActive fresh_server" "length (requests fresh_server) = 0"
    by (simp_all add: fresh_server_def)
  have c: "\<not> falsy (AMZ_USER (challenge_env pg))" "\<not> falsy (AMZ_PASS (challenge_env pg))"
    "\<not> falsy (AMZ_USER (detour_env pg))" "\<not> falsy (AMZ_PASS (detour_env pg))"
    "\<not> falsy (AMZ_USER (login_env pg))" "\<not> falsy (AMZ_PASS (login_env pg))" for pg
    by (simp_all add: challenge_env_def detour_env_def login_env_def configured_env_def falsy_def)
  have f1: "(http (challenge_env pg) (length (requests fresh_server)) = Inr signin_page \<and>
             signIn signin_page = Some [(''appActionToken'', ''tok'')] \<and>
             1 = Suc (length (requests fresh_server))) \<or>
            (http (challenge_env pg) (length (requests fresh_server)) = Inr signin_page \<and>
             signIn signin_page = None \<and>
             http (challenge_env pg) (Suc (length (requests fresh_server))) = Inr signin_page \<and>
             signIn signin_page = Some [(''appActionToken'', ''tok'')] \<and>
             1 = Suc (Suc (length (requests fresh_server))))" for pg
    by (simp add: s challenge_env_def configured_env_def signin_page_def)
  have f2: "(http (detour_env captcha_page) (length (requests fresh_server)) = Inr orders_page \<and>
             signIn orders_page = Some [(''appActionToken'', ''tok'')] \<and>
             2 = Suc (length (requests fresh_server))) \<or>
            (http (detour_env captcha_page) (length (requests fresh_server)) = Inr orders_page \<and>
             signIn orders_page = None \<and>
             http (detour_env captcha_page) (Suc (length (requests fresh_server))) = Inr signin_page \<and>
             signIn signin_page = Some [(''appActionToken'', ''tok'')] \<and>
             2 = Suc (Suc (length (requests fresh_server))))"
    by (simp add: s detour_env_def configured_env_def signin_page_def orders_page_def)
  have p1: "http (challenge_env mfa_page) 1 = Inr mfa_page" "signIn mfa_page = None"
    "\<not> str_includes (response_data mfa_page) ''Enter your password''"
    by (simp_all add: challenge_env_def configured_env_def mfa_page_def includes_mfa)
  have p2: "http (detour_env captcha_page) 2 = Inr captcha_page" "signIn captcha_page = None"
    "\<not> str_includes (response_data captcha_page) ''Enter your password''"
    by (simp_all add: detour_env_def configured_env_def captcha_page_def includes_captcha)
  have p3: "http (challenge_env bare_page) 1 = Inr bare_page" "signIn bare_page = None"
    "\<not> str_includes (response_data bare_page) ''Enter your password''"
    by (simp_all add: challenge_env_def configured_env_def bare_page_def)
  have m: "str_includes (response_data mfa_page) ''auth-mfa-otpcode''"
    "\<not> str_includes (response_data captcha_page) ''auth-mfa-otpcode''"
    "str_includes (response_data captcha_page) ''/errors/validateCaptcha''"
    "\<not> str_includes (response_data bare_page) ''auth-mfa-otpcode''"
    "\<not> str_includes (response_data bare_page) ''/errors/validateCaptcha''"
    by (simp_all add: mfa_page_def captcha_page_def bare_page_def includes_mfa includes_captcha)
  show ?thesis
    using amazon_challenge_not_terminal[OF s(1) c(1,2) f1 p1 c(5,6)[of status_page],
            of "''ABC-1234567-1234567''" "''ABC-1234567-1234567''"]
      amazon_challenge_not_terminal[OF s(1) c(3,4) f2 p2 c(5,6)[of status_page],
            of "''ABC-1234567-1234567''" "''ABC-1234567-1234567''"]
      amazon_challenge_not_terminal[OF s(1) c(1,2) f1 p3 c(5,6)[of status_page],
            of "''ABC-1234567-1234567''" "''ABC-1234567-1234567''"]
    by (simp add: m numeral_2_eq_2 numeral_3_eq_3)
qed

lemma includes_orders:
  "\<not> str_includes ''<h1>Your Orders</h1>'' ''redirectGet''"
  "\<not> str_includes ''<h1>Your Orders</h1>'' ''/ap/signin''"
  by simp_all

text \<open>
  A fetch whose login meets the second-factor challenge, followed by a fetch for
  which Amazon accepts the login: the second fetch logs in again, succeeds and
  leaves the session active.
\<close>

theorem amazon_login_after_challenge_counterexample:
  "getAmazonTrackingWithLogin (challenge_env mfa_page) fresh_server ''ABC-1234567-1234567'' =
     (Inl (''Amazon login process failed: '' @ mfa_message),
      fresh_server\<lparr>requests := [GET signin_url,
         POST signin_url [(''appActionToken'', ''tok''), (''email'', ''user@example.com''),
                          (''create'', ''0'')]]\<rparr>) \<and>
   getAmazonTrackingWithLogin (login_env status_page)
      (fresh_server\<lparr>requests := [GET signin_url,
         POST signin_url [(''appActionToken'', ''tok''), (''email'', ''user@example.com''),
                          (''create'', ''0'')]]\<rparr>) ''ABC-1234567-1234567'' =
     (Inr \<lparr>carrier = ''Amazon Logistics'', trackingNumber = ''ABC-1234567-1234567'',
           result_status = ''Arriving tomorrow'', estimatedDelivery = PageText ''N/A'',
           activity = [\<lparr>status = ''Arriving tomorrow'',
                        description = Some ''Current status: Arriving tomorrow'',
                        location = [], timestamp = Iso 1000, geo = None\<rparr>]\<rparr>,
      fresh_server\<lparr>amazonSessionActive := True,
        requests := [GET signin_url,
          POST signin_url [(''appActionToken'', ''tok''), (''email'', ''user@example.com''),
                           (''create'', ''0'')],
          GET signin_url,
          POST signin_url [(''appActionToken'', ''tok''), (''email'', ''user@example.com''),
                           (''create'', ''0'')],
          POST signin_url [(''appActionToken'', ''tok''), (''password'', ''secret''),
                           (''rememberMe'', ''true'')],
          GET order_history_url,
          GET (tracking_url ''ABC-1234567-1234567'')]\<rparr>)"
proof -
  have first: "getAmazonTrackingWithLogin (challenge_env mfa_page) fresh_server ''ABC-1234567-1234567'' =
     (Inl (''Amazon login process failed: '' @ mfa_message),
      fresh_server\<lparr>requests := [GET signin_url,
         POST signin_url [(''appActionToken'', ''tok''), (''email'', ''user@example.com''),
                          (''create'', ''0'')]]\<rparr>)"
    by (simp add: getAmazonTrackingWithLogin_def mfa_run)
  have login2: "login (login_env status_page)
      (fresh_server\<lparr>requests := [GET signin_url,
         POST signin_url [(''appActionToken'', ''tok''), (''email'', ''user@example.com''),
                          (''create'', ''0'')]]\<rparr>) ''user@example.com'' ''secret'' =
      (Inr (), fresh_server\<lparr>requests := [GET signin_url,
          POST signin_url [(''appActionToken'', ''tok''), (''email'', ''user@example.com''),
                           (''create'', ''0'')],
          GET signin_url,
          POST signin_url [(''appActionToken'', ''tok''), (''email'', ''user@example.com''),
                           (''create'', ''0'')],
          POST signin_url [(''appActionToken'', ''tok''), (''password'', ''secret''),
                           (''rememberMe'', ''true'')],
          GET order_history_url]\<rparr>)"
    by (simp add: login_def login_env_def configured_env_def fresh_server_def client_get_def
          client_post_def signin_page_def submit_email_def submit_password_def
          extractHiddenInputs_def orders_page_def includes_orders)
  have second: "getAmazonTrackingWithLogin (login_env status_page)
      (fresh_server\<lparr>requests := [GET signin_url,
         POST signin_url [(''appActionToken'', ''tok''), (''email'', ''user@example.com''),
                          (''create'', ''0'')]]\<rparr>) ''ABC-1234567-1234567'' =
     (Inr (parse_order_page (login_env status_page) status_page ''ABC-1234567-1234567''),
      fresh_server\<lparr>amazonSessionActive := True,
        requests := [GET signin_url,
          POST signin_url [(''appActionToken'', ''tok''), (''email'', ''user@example.com''),
                           (''create'', ''0'')],
          GET signin_url,
          POST signin_url [(''appActionToken'', ''tok''), (''email'', ''user@example.com''),
                           (''create'', ''0'')],
          POST signin_url [(''appActionToken'', ''tok''), (''password'', ''secret''),
                           (''rememberMe'', ''true'')],
          GET order_history_url,
          GET (tracking_url ''ABC-1234567-1234567'')]\<rparr>)"
  proof -
    have en: "ensureAmazonSession (login_env status_page)
      (fresh_server\<lparr>requests := [GET signin_url,
         POST signin_url [(''appActionToken'', ''tok''), (''email'', ''user@example.com''),
                          (''create'', ''0'')]]\<rparr>) =
      (Inr True, fresh_server\<lparr>amazonSessionActive := True, requests := [GET signin_url,
          POST signin_url [(''appActionToken'', ''tok''), (''email'', ''user@example.com''),
                           (''create'', ''0'')],
          GET signin_url,
          POST signin_url [(''appActionToken'', ''tok''), (''email'', ''user@example.com''),
                           (''create'', ''0'')],
          POST signin_url [(''appActionToken'', ''tok''), (''password'', ''secret''),
                           (''rememberMe'', ''true'')],
          GET order_history_url]\<rparr>)"
    proof -
      have u: "AMZ_USER (login_env status_page) = Some ''user@example.com''"
        "AMZ_PASS (login_env status_page) = Some ''secret''"
        by (simp_all add: login_env_def configured_env_def)
      show ?thesis
        unfolding ensureAmazonSession_def u
        by (simp add: falsy_def login2) (simp add: fresh_server_def)
    qed
    show ?thesis
      unfolding getAmazonTrackingWithLogin_def en
      by (simp add: client_get_def login_env_def configured_env_def fresh_server_def)
  qed
  have parse: "parse_order_page (login_env status_page) status_page ''ABC-1234567-1234567'' =
     \<lparr>carrier = ''Amazon Logistics'', trackingNumber = ''ABC-1234567-1234567'',
           result_status = ''Arriving tomorrow'', estimatedDelivery = PageText ''N/A'',
           activity = [\<lparr>status = ''Arriving tomorrow'',
                        description = Some ''Current status: Arriving tomorrow'',
                        location = [], timestamp = Iso 1000, geo = None\<rparr>]\<rparr>"
    by (simp add: parse_order_page_def Let_def status_page_def eventSelectors_def trim_example
          login_env_def configured_env_def)
  from first second parse show ?thesis by simp
qed

section \<open>The socket handlers\<close>




lemma received_Nil: "received ss [] r = []"
  by (simp add: received_def)




text \<open>
  Claim C10. A \<^verbatim>\<open>send-location\<close> event from a socket with no registered user
  changes nothing and emits nothing, so no socket receives an event.
\<close>

theorem send_location_not_joined:
  assumes "map_of (liveUsers h) sid = None"
  shows "send_location h sid lat lon = ([], h) \<and>
         received (sockets h) (fst (send_location h sid lat lon)) r = []"
  using assms by (simp add: send_location_def received_def)

theorem send_location_not_joined_witness:
  "send_location two_sockets ''A'' (Num 41) (Num 29) = ([], two_sockets) \<and>
   received (sockets two_sockets) (fst (send_location two_sockets ''A'' (Num 41) (Num 29))) ''B'' = []"
proof -
  have a: "map_of (liveUsers two_sockets) ''A'' = None" by (simp add: two_sockets_def)
  show ?thesis using send_location_not_joined[OF a, of "Num 41" "Num 29" "''B''"] by (simp add: received_Nil)
qed

end
